theory Spec2Isabelle
  imports Complex_Main
begin


section \<open>JavaScript strings and numbers\<close>

text \<open>
  A JavaScript string is modelled as a \<^typ>\<open>string\<close>, one \<^typ>\<open>char\<close> per code unit
  (code units below 256). The helpers below are the library functions the sources call:
  \<^verbatim>\<open>String.prototype.trim\<close>, \<^verbatim>\<open>includes\<close>, \<^verbatim>\<open>Array.prototype.join\<close>
  and the decimal printing of a non-negative integer in a template literal.
\<close>

definition NL :: "string" where
  "NL = [CHR 0x0A]"

definition js_space :: "char \<Rightarrow> bool" where
  "js_space c = (c = CHR 0x09 \<or> c = CHR 0x0A \<or> c = CHR 0x0B \<or> c = CHR 0x0C
     \<or> c = CHR 0x0D \<or> c = CHR 0x20 \<or> c = CHR 0xA0)"

definition js_trim :: "string \<Rightarrow> string" where
  "js_trim s = rev (dropWhile js_space (rev (dropWhile js_space s)))"

fun startsWith :: "string \<Rightarrow> string \<Rightarrow> bool" where
  "startsWith s [] = True"
| "startsWith [] (p # ps) = False"
| "startsWith (c # cs) (p # ps) = (c = p \<and> startsWith cs ps)"

fun js_includes :: "string \<Rightarrow> string \<Rightarrow> bool" where
  "js_includes [] p = (p = [])"
| "js_includes (c # cs) p = (startsWith (c # cs) p \<or> js_includes cs p)"

fun join :: "string \<Rightarrow> string list \<Rightarrow> string" where
  "join sep [] = []"
| "join sep [x] = x"
| "join sep (x # y # ys) = x @ sep @ join sep (y # ys)"

definition digit_char :: "nat \<Rightarrow> char" where
  "digit_char d = (if d = 0 then CHR ''0'' else if d = 1 then CHR ''1'' else if d = 2 then CHR ''2''
     else if d = 3 then CHR ''3'' else if d = 4 then CHR ''4'' else if d = 5 then CHR ''5''
     else if d = 6 then CHR ''6'' else if d = 7 then CHR ''7'' else if d = 8 then CHR ''8''
     else CHR ''9'')"

fun show_nat :: "nat \<Rightarrow> string" where
  "show_nat n = (if n < 10 then [digit_char n] else show_nat (n div 10) @ [digit_char (n mod 10)])"

declare show_nat.simps [simp del]

definition show_int :: "int \<Rightarrow> string" where
  "show_int i = (if i < 0 then CHR ''-'' # show_nat (nat (- i)) else show_nat (nat i))"

section \<open>settings.ts: steps, overrides and resolved behaviour\<close>

text \<open>
  A TypeScript value of type \<^verbatim>\<open>T | false\<close> is an \<open>or_false\<close>; an optional field
  (\<^verbatim>\<open>undefined\<close> when absent) is an \<^typ>\<open>'a option\<close>. The declaration of
  \<^verbatim>\<open>AgentConfig\<close> (agents.ts) is not part of the sources at hand: the record has the
  fields the functions below read, with the types they are read at.
\<close>

datatype 'a or_false = Disabled | Enabled 'a

datatype error = Error string | TypeError string

record AgentConfig =
  ac_name :: string
  ac_output :: "string option"
  ac_defaultReads :: "string list option"
  ac_defaultProgress :: "bool option"
  ac_model :: "string option"
  ac_thinking :: "string option"

record ResolvedStepBehavior =
  rb_output :: "string or_false"
  rb_reads :: "string list or_false"
  rb_progress :: bool

record StepOverrides =
  so_output :: "string or_false option"
  so_reads :: "string list or_false option"
  so_progress :: "bool option"

record SequentialStep =
  st_agent :: string
  st_task :: "string option"
  st_cwd :: "string option"
  st_output :: "string or_false option"
  st_reads :: "string list or_false option"
  st_progress :: "bool option"

type_synonym ParallelTaskItem = SequentialStep

record ParallelStep =
  ps_parallel :: "ParallelTaskItem list"
  ps_concurrency :: "int option"
  ps_failFast :: "bool option"

datatype ChainStep = Sequential SequentialStep | Parallel ParallelStep

fun isParallelStep :: "ChainStep \<Rightarrow> bool" where
  "isParallelStep (Parallel p) = True"
| "isParallelStep (Sequential s) = False"

definition findAgent :: "AgentConfig list \<Rightarrow> string \<Rightarrow> AgentConfig option" where
  "findAgent agents nm = find (\<lambda>a. ac_name a = nm) agents"

definition resolveStepBehavior :: "AgentConfig \<Rightarrow> StepOverrides \<Rightarrow> ResolvedStepBehavior" where
  "resolveStepBehavior agentConfig stepOverrides =
     \<lparr> rb_output =
         (if so_output stepOverrides \<noteq> None then the (so_output stepOverrides)
          else (case ac_output agentConfig of Some s \<Rightarrow> Enabled s | None \<Rightarrow> Disabled)),
       rb_reads =
         (if so_reads stepOverrides \<noteq> None then the (so_reads stepOverrides)
          else (case ac_defaultReads agentConfig of Some r \<Rightarrow> Enabled r | None \<Rightarrow> Disabled)),
       rb_progress =
         (if so_progress stepOverrides \<noteq> None then the (so_progress stepOverrides)
          else (case ac_defaultProgress agentConfig of Some p \<Rightarrow> p | None \<Rightarrow> False)) \<rparr>"

text \<open>\<^verbatim>\<open>path.isAbsolute\<close> of Node's POSIX \<^verbatim>\<open>path\<close> module: the path starts with a slash.\<close>

definition isAbsolute :: "string \<Rightarrow> bool" where
  "isAbsolute p = (case p of [] \<Rightarrow> False | c # cs \<Rightarrow> c = CHR ''/'')"

definition parallelSubdir :: "nat \<Rightarrow> nat \<Rightarrow> string \<Rightarrow> string" where
  "parallelSubdir stepIndex taskIndex agent =
     ''parallel-'' @ show_nat stepIndex @ ''/'' @ show_nat taskIndex @ ''-'' @ agent"

definition resolveParallelTask ::
  "ParallelTaskItem \<Rightarrow> AgentConfig \<Rightarrow> nat \<Rightarrow> nat \<Rightarrow> ResolvedStepBehavior" where
  "resolveParallelTask task config stepIndex taskIndex =
     (let subdir = parallelSubdir stepIndex taskIndex (st_agent task) in
      \<lparr> rb_output =
          (case st_output task of
             Some Disabled \<Rightarrow> Disabled
           | Some (Enabled p) \<Rightarrow> (if isAbsolute p then Enabled p else Enabled (subdir @ ''/'' @ p))
           | None \<Rightarrow>
               (case ac_output config of
                  Some s \<Rightarrow> (if s \<noteq> [] then Enabled (subdir @ ''/'' @ s) else Disabled)
                | None \<Rightarrow> Disabled)),
        rb_reads =
          (if st_reads task \<noteq> None then the (st_reads task)
           else (case ac_defaultReads config of Some r \<Rightarrow> Enabled r | None \<Rightarrow> Disabled)),
        rb_progress =
          (if st_progress task \<noteq> None then the (st_progress task)
           else (case ac_defaultProgress config of Some p \<Rightarrow> p | None \<Rightarrow> False)) \<rparr>)"

text \<open>
  \<^verbatim>\<open>resolveParallelBehaviors\<close> maps over the tasks in order and throws
  \<^verbatim>\<open>Error("Unknown agent: ...")\<close> at the first task whose agent is not configured.
\<close>

fun resolveParallelFrom ::
  "ParallelTaskItem list \<Rightarrow> AgentConfig list \<Rightarrow> nat \<Rightarrow> nat \<Rightarrow> error + ResolvedStepBehavior list" where
  "resolveParallelFrom [] agentConfigs stepIndex taskIndex = Inr []"
| "resolveParallelFrom (task # tasks) agentConfigs stepIndex taskIndex =
     (case findAgent agentConfigs (st_agent task) of
        None \<Rightarrow> Inl (Error (''Unknown agent: '' @ st_agent task))
      | Some config \<Rightarrow>
          (case resolveParallelFrom tasks agentConfigs stepIndex (Suc taskIndex) of
             Inl e \<Rightarrow> Inl e
           | Inr bs \<Rightarrow> Inr (resolveParallelTask task config stepIndex taskIndex # bs)))"

definition resolveParallelBehaviors ::
  "ParallelTaskItem list \<Rightarrow> AgentConfig list \<Rightarrow> nat \<Rightarrow> error + ResolvedStepBehavior list" where
  "resolveParallelBehaviors tasks agentConfigs stepIndex =
     resolveParallelFrom tasks agentConfigs stepIndex 0"

record ParallelTaskResult =
  ptr_agent :: string
  ptr_taskIndex :: nat
  ptr_output :: string
  ptr_exitCode :: int
  ptr_error :: "string option"

definition parallelHeader :: "nat \<Rightarrow> string \<Rightarrow> string" where
  "parallelHeader i agent = ''=== Parallel Task '' @ show_nat (i + 1) @ '' ('' @ agent @ '') ===''"

definition aggregateParallelOutputs :: "ParallelTaskResult list \<Rightarrow> string" where
  "aggregateParallelOutputs results =
     join (NL @ NL)
       (map (\<lambda>(i, r). parallelHeader i (ptr_agent r) @ NL @ ptr_output r) (enumerate 0 results))"

definition getParallelFailureSummary :: "ParallelTaskResult list \<Rightarrow> string" where
  "getParallelFailureSummary results =
     (let failures = filter (\<lambda>r. ptr_exitCode r \<noteq> 0) results in
      if failures = [] then []
      else join NL (map (\<lambda>f. ''- Task '' @ show_nat (ptr_taskIndex f + 1) @ '' ('' @ ptr_agent f @ ''): ''
             @ (case ptr_error f of None \<Rightarrow> ''failed'' | Some e \<Rightarrow> (if e = [] then ''failed'' else e)))
           failures))"

section \<open>execution.ts: the worker process runner\<close>

text \<open>
  The worker's protocol records. A \<^verbatim>\<open>Message\<close> (package pi-ai) keeps the fields the
  runner reads; its content is kept as the text \<^verbatim>\<open>extractTextFromContent\<close> (utils.ts, not
  among the sources at hand) returns for it, and a tool start keeps the preview
  \<^verbatim>\<open>extractToolArgsPreview\<close> returns for its arguments. Token counts are integers, the
  cost is a real number. Wall-clock values (\<^verbatim>\<open>durationMs\<close>, \<^verbatim>\<open>endMs\<close>) are left out.
\<close>

record MessageUsage =
  mu_input :: "int option"
  mu_output :: "int option"
  mu_cacheRead :: "int option"
  mu_cacheWrite :: "int option"
  mu_costTotal :: "real option"

record Message =
  m_role :: string
  m_usage :: "MessageUsage option"
  m_model :: "string option"
  m_errorMessage :: "string option"
  m_text :: string
  m_toolName :: "string option"
  m_isError :: bool

datatype Event =
    ToolExecutionStart "string option" string
  | ToolExecutionEnd
  | MessageEnd "Message option"
  | ToolResultEnd "Message option" "string option"
  | OtherEvent

text \<open>
  A line of the worker's standard output: blank (\<^verbatim>\<open>!line.trim()\<close>), not parseable
  (\<^verbatim>\<open>JSON.parse\<close> throws and the line is skipped) or parsed into an event.
\<close>

datatype Line = BlankLine | Malformed | Parsed Event

record Usage =
  u_input :: int
  u_output :: int
  u_cacheRead :: int
  u_cacheWrite :: int
  u_cost :: real
  u_turns :: nat

datatype Status = Running | Completed | Failed

record AgentProgress =
  p_index :: nat
  p_agent :: string
  p_status :: Status
  p_task :: string
  p_currentTool :: "string option"
  p_currentToolArgs :: "string option"
  p_recentTools :: "(string \<times> string) list"
  p_recentOutput :: "string list"
  p_toolCount :: nat
  p_tokens :: int
  p_error :: "string option"
  p_failedTool :: "string option"

record SingleResult =
  r_agent :: string
  r_task :: string
  r_exitCode :: int
  r_messages :: "Message list"
  r_usage :: Usage
  r_model :: "string option"
  r_error :: "string option"
  r_progress :: "AgentProgress option"

record ToolError =
  te_toolName :: string
  te_exitCode :: "int option"
  te_details :: "string option"

record RunState =
  rs_result :: SingleResult
  rs_progress :: AgentProgress
  rs_finalOutputText :: string
  rs_lastToolError :: "ToolError option"

text \<open>JavaScript truthiness of an optional string: \<^verbatim>\<open>undefined\<close> and \<^verbatim>\<open>""\<close> are falsy.\<close>

definition truthy :: "string option \<Rightarrow> bool" where
  "truthy v = (case v of None \<Rightarrow> False | Some s \<Rightarrow> s \<noteq> [])"

definition zeroUsage :: Usage where
  "zeroUsage = \<lparr> u_input = 0, u_output = 0, u_cacheRead = 0, u_cacheWrite = 0, u_cost = 0, u_turns = 0 \<rparr>"

definition THINKING_LEVELS :: "string list" where
  "THINKING_LEVELS = [''off'', ''minimal'', ''low'', ''medium'', ''high'', ''xhigh'']"

text \<open>The text after the last colon of a model name, if it has a colon.\<close>

fun afterLastColon :: "string \<Rightarrow> string option" where
  "afterLastColon [] = None"
| "afterLastColon (c # cs) =
     (case afterLastColon cs of
        Some r \<Rightarrow> Some r
      | None \<Rightarrow> (if c = CHR '':'' then Some cs else None))"

definition applyThinkingSuffix :: "string option \<Rightarrow> string option \<Rightarrow> string option" where
  "applyThinkingSuffix model thinking =
     (if \<not> truthy model \<or> \<not> truthy thinking \<or> thinking = Some ''off'' then model
      else (case afterLastColon (the model) of
              Some suffix \<Rightarrow>
                (if List.member THINKING_LEVELS suffix then model
                 else Some (the model @ '':'' @ the thinking))
            | None \<Rightarrow> Some (the model @ '':'' @ the thinking)))"

definition MAX_STORED_MESSAGES :: nat where
  "MAX_STORED_MESSAGES = 200"

definition MAX_TAIL_CHARS :: nat where
  "MAX_TAIL_CHARS = 20000"

definition MAX_STDERR_CHARS :: nat where
  "MAX_STDERR_CHARS = 200000"

definition pushMessage :: "Message \<Rightarrow> Message list \<Rightarrow> Message list" where
  "pushMessage msg messages =
     (let ms = messages @ [msg] in
      if length ms > MAX_STORED_MESSAGES then drop (length ms - MAX_STORED_MESSAGES) ms else ms)"

subsection \<open>parseExitCode\<close>

text \<open>
  The pattern is
  \<^verbatim>\<open>/exit(?:ed)?\s*(?:with\s*)?(?:code|status)?\s*[:\s]?\s*(\d+)/i\<close>.
  Between \<^verbatim>\<open>exit\<close> and the digits every part is optional and none of them can match
  in place of another, so the match at a position is found by one greedy pass.
  \<open>find_exit\<close> is the leftmost match, as \<^verbatim>\<open>String.prototype.match\<close> finds it.
\<close>

definition lower :: "char \<Rightarrow> char" where
  "lower c = (let n = (of_char c :: nat) in if 65 \<le> n \<and> n \<le> 90 then char_of (n + 32) else c)"

definition is_digit :: "char \<Rightarrow> bool" where
  "is_digit c = (let n = (of_char c :: nat) in 48 \<le> n \<and> n \<le> 57)"

fun ci_prefix :: "string \<Rightarrow> string \<Rightarrow> string option" where
  "ci_prefix [] s = Some s"
| "ci_prefix (p # ps) [] = None"
| "ci_prefix (p # ps) (c # cs) = (if lower c = p then ci_prefix ps cs else None)"

definition match_exit_at :: "string \<Rightarrow> string option" where
  "match_exit_at s =
     (case ci_prefix ''exit'' s of
        None \<Rightarrow> None
      | Some r1 \<Rightarrow>
          (let r2 = (case ci_prefix ''ed'' r1 of Some r \<Rightarrow> r | None \<Rightarrow> r1);
               r3 = dropWhile js_space r2;
               r4 = (case ci_prefix ''with'' r3 of Some r \<Rightarrow> dropWhile js_space r | None \<Rightarrow> r3);
               r5 = (case ci_prefix ''code'' r4 of
                       Some r \<Rightarrow> r
                     | None \<Rightarrow> (case ci_prefix ''status'' r4 of Some r \<Rightarrow> r | None \<Rightarrow> r4));
               r6 = dropWhile js_space r5;
               r7 = (case r6 of [] \<Rightarrow> r6 | c # cs \<Rightarrow> (if c = CHR '':'' then cs else r6));
               r8 = dropWhile js_space r7;
               ds = takeWhile is_digit r8
           in if ds = [] then None else Some ds))"

fun find_exit :: "string \<Rightarrow> string option" where
  "find_exit [] = None"
| "find_exit (c # cs) =
     (case match_exit_at (c # cs) of Some ds \<Rightarrow> Some ds | None \<Rightarrow> find_exit cs)"

definition digit_value :: "char \<Rightarrow> int" where
  "digit_value c = of_char c - 48"

definition parse_decimal :: "string \<Rightarrow> int" where
  "parse_decimal ds = foldl (\<lambda>n c. 10 * n + digit_value c) 0 ds"

text \<open>
  \<^verbatim>\<open>parseInt\<close> yields a double, the one nearest to the integer the digits denote (ties
  go to the even significand). An integer below \<open>2^53\<close> is a double. Above, the 53 leading
  bits are kept and the rest is rounded away; a result of \<open>2^1024\<close> is \<^verbatim>\<open>Infinity\<close>,
  which \<^verbatim>\<open>Number.isFinite\<close> rejects. \<open>toDouble\<close> gives the double as the integer it is
  equal to, or \<open>None\<close> for \<^verbatim>\<open>Infinity\<close>.
\<close>

function bitLength :: "int \<Rightarrow> nat" where
  "bitLength n = (if n \<le> 0 then 0 else Suc (bitLength (n div 2)))"
  by pat_completeness auto
termination
  by (relation "measure nat") auto

declare bitLength.simps [simp del]

definition toDouble :: "int \<Rightarrow> int option" where
  "toDouble n =
     (if n < 2 ^ 53 then Some n
      else (let e = bitLength n - 53;
                q = n div 2 ^ e;
                r = n mod 2 ^ e;
                half = 2 ^ (e - 1);
                q1 = (if half < r \<or> (r = half \<and> odd q) then q + 1 else q);
                v = q1 * 2 ^ e
            in if v < 2 ^ 1024 then Some v else None))"

definition parseExitCode :: "string \<Rightarrow> int option" where
  "parseExitCode text =
     (if text = [] then None
      else (case find_exit text of
              None \<Rightarrow> None
            | Some ds \<Rightarrow> toDouble (parse_decimal ds)))"

subsection \<open>tailLines\<close>

fun tailScan :: "string \<Rightarrow> nat \<Rightarrow> nat \<Rightarrow> nat \<Rightarrow> string list \<Rightarrow> nat \<times> string list" where
  "tailScan s maxLines 0 end out = (end, out)"
| "tailScan s maxLines (Suc i) end out =
     (if length out < maxLines then
        (if s ! i = CHR 0x0A then
           (let seg = js_trim (take (end - (i + 1)) (drop (i + 1) s)) in
            tailScan s maxLines i i (if seg \<noteq> [] then out @ [seg] else out))
         else tailScan s maxLines i end out)
      else (end, out))"

definition tailLines :: "string \<Rightarrow> nat \<Rightarrow> string list" where
  "tailLines text maxLines =
     (if text = [] then []
      else
        (let s = (if length text > MAX_TAIL_CHARS then drop (length text - MAX_TAIL_CHARS) text else text);
             scanned = tailScan s maxLines (length s) (length s) [];
             out = (if length (snd scanned) < maxLines then
                      (let first = js_trim (take (fst scanned) s) in
                       if first \<noteq> [] then snd scanned @ [first] else snd scanned)
                    else snd scanned);
             r = rev out
         in if length r > maxLines then drop (length r - maxLines) r else r))"

subsection \<open>processLine\<close>

definition pushRecentOutput :: "string list \<Rightarrow> string list \<Rightarrow> string list" where
  "pushRecentOutput lines recentOutput =
     (let ro = recentOutput @ lines in
      if length ro > 50 then drop (length ro - 50) ro else ro)"

definition onToolExecutionStart :: "string option \<Rightarrow> string \<Rightarrow> RunState \<Rightarrow> RunState" where
  "onToolExecutionStart toolName argsPreview st =
     st\<lparr> rs_progress := (rs_progress st)
           \<lparr> p_toolCount := p_toolCount (rs_progress st) + 1,
             p_currentTool := toolName,
             p_currentToolArgs := Some argsPreview \<rparr> \<rparr>"

definition onToolExecutionEnd :: "RunState \<Rightarrow> RunState" where
  "onToolExecutionEnd st =
     (let progress = rs_progress st;
          recentTools =
            (if truthy (p_currentTool progress) then
               (let unshifted =
                      (the (p_currentTool progress),
                       (case p_currentToolArgs progress of
                          None \<Rightarrow> [] | Some a \<Rightarrow> a)) # p_recentTools progress
                in if length unshifted > 5 then butlast unshifted else unshifted)
             else p_recentTools progress)
      in st\<lparr> rs_progress := progress
              \<lparr> p_recentTools := recentTools,
                p_currentTool := None,
                p_currentToolArgs := None \<rparr> \<rparr>)"

definition addUsage :: "MessageUsage option \<Rightarrow> Usage \<Rightarrow> Usage" where
  "addUsage mu usage =
     (case mu of
        None \<Rightarrow> usage
      | Some u \<Rightarrow>
          usage\<lparr> u_input := u_input usage + (case mu_input u of None \<Rightarrow> 0 | Some v \<Rightarrow> v),
                 u_output := u_output usage + (case mu_output u of None \<Rightarrow> 0 | Some v \<Rightarrow> v),
                 u_cacheRead := u_cacheRead usage + (case mu_cacheRead u of None \<Rightarrow> 0 | Some v \<Rightarrow> v),
                 u_cacheWrite := u_cacheWrite usage + (case mu_cacheWrite u of None \<Rightarrow> 0 | Some v \<Rightarrow> v),
                 u_cost := u_cost usage + (case mu_costTotal u of None \<Rightarrow> 0 | Some v \<Rightarrow> v) \<rparr>)"

definition onMessageEnd :: "Message \<Rightarrow> RunState \<Rightarrow> RunState" where
  "onMessageEnd msg st =
     (if m_role msg = ''assistant'' then
        (let result = rs_result st;
             progress = rs_progress st;
             usage = addUsage (m_usage msg) ((r_usage result)\<lparr> u_turns := u_turns (r_usage result) + 1 \<rparr>);
             result1 = result
               \<lparr> r_messages := pushMessage msg (r_messages result),
                 r_usage := usage,
                 r_model := (if \<not> truthy (r_model result) \<and> truthy (m_model msg) then m_model msg
                             else r_model result),
                 r_error := (if truthy (m_errorMessage msg) then m_errorMessage msg else r_error result) \<rparr>;
             progress1 = (if m_usage msg \<noteq> None
                          then progress\<lparr> p_tokens := u_input usage + u_output usage \<rparr>
                          else progress)
         in if m_text msg \<noteq> [] then
              st\<lparr> rs_result := result1,
                   rs_finalOutputText := m_text msg,
                   rs_progress := progress1
                     \<lparr> p_recentOutput := pushRecentOutput (tailLines (m_text msg) 10) (p_recentOutput progress1) \<rparr> \<rparr>
            else st\<lparr> rs_result := result1, rs_progress := progress1 \<rparr>)
      else if truthy (m_errorMessage msg) then
        st\<lparr> rs_result := (rs_result st)\<lparr> r_error := m_errorMessage msg \<rparr> \<rparr>
      else st)"

definition onToolResultEnd :: "Message \<Rightarrow> string option \<Rightarrow> RunState \<Rightarrow> RunState" where
  "onToolResultEnd msg evtToolName st =
     (let toolName = (if truthy (m_toolName msg) then the (m_toolName msg)
                      else if truthy evtToolName then the evtToolName else ''tool'');
          isError = m_isError msg;
          toolText = m_text msg;
          progress = rs_progress st;
          progress1 = (if toolText \<noteq> [] then
                         progress\<lparr> p_recentOutput := pushRecentOutput (tailLines toolText 10) (p_recentOutput progress) \<rparr>
                       else progress);
          exitCode = (if toolName = ''bash'' then parseExitCode toolText else None)
      in if isError \<or> (toolName = ''bash'' \<and> exitCode \<noteq> None \<and> exitCode \<noteq> Some 0) then
           st\<lparr> rs_progress := progress1,
                rs_lastToolError := Some
                  \<lparr> te_toolName = toolName,
                    te_exitCode = Some (case exitCode of None \<Rightarrow> 1 | Some c \<Rightarrow> c),
                    te_details = (if toolText \<noteq> [] then Some (take 200 toolText) else None) \<rparr>,
                rs_result := (rs_result st)\<lparr> r_messages := pushMessage msg (r_messages (rs_result st)) \<rparr> \<rparr>
         else st\<lparr> rs_progress := progress1, rs_lastToolError := None \<rparr>)"

fun processEvent :: "Event \<Rightarrow> RunState \<Rightarrow> RunState" where
  "processEvent (ToolExecutionStart toolName argsPreview) st = onToolExecutionStart toolName argsPreview st"
| "processEvent ToolExecutionEnd st = onToolExecutionEnd st"
| "processEvent (MessageEnd (Some msg)) st = onMessageEnd msg st"
| "processEvent (MessageEnd None) st = st"
| "processEvent (ToolResultEnd (Some msg) evtToolName) st = onToolResultEnd msg evtToolName st"
| "processEvent (ToolResultEnd None evtToolName) st = st"
| "processEvent OtherEvent st = st"

fun processLine :: "RunState \<Rightarrow> Line \<Rightarrow> RunState" where
  "processLine st BlankLine = st"
| "processLine st Malformed = st"
| "processLine st (Parsed evt) = processEvent evt st"

subsection \<open>runSync\<close>

text \<open>
  What the environment does for one call of \<^verbatim>\<open>runSync\<close>: \<open>w_setupError\<close> is the
  exception, if any, raised by a collaborator called between the agent lookup and the spawn
  (\<^verbatim>\<open>resolveSkills\<close>, \<^verbatim>\<open>writePrompt\<close>, the artifact writers; none is called inside a
  \<^verbatim>\<open>try\<close>), \<open>w_lines\<close> are the lines of the child's standard output in order (the last
  one being the fragment flushed at close), \<open>w_stderr\<close> is its standard error and
  \<open>w_exit\<close> is how the child ends: a \<^verbatim>\<open>close\<close> event with an exit code (\<^verbatim>\<open>null\<close>
  when a signal killed it) or an \<^verbatim>\<open>error\<close> event.
\<close>

datatype ProcExit = Close "int option" | SpawnError

record Worker =
  w_setupError :: "string option"
  w_lines :: "Line list"
  w_stderr :: string
  w_exit :: ProcExit

record RunSyncOptions =
  o_index :: "nat option"
  o_modelOverride :: "string option"

definition unknownAgentResult :: "string \<Rightarrow> string \<Rightarrow> SingleResult" where
  "unknownAgentResult agentName task =
     \<lparr> r_agent = agentName, r_task = task, r_exitCode = 1, r_messages = [],
       r_usage = zeroUsage, r_model = None,
       r_error = Some (''Unknown agent: '' @ agentName), r_progress = None \<rparr>"

definition initialProgress :: "nat option \<Rightarrow> string \<Rightarrow> string \<Rightarrow> AgentProgress" where
  "initialProgress index agentName task =
     \<lparr> p_index = (case index of None \<Rightarrow> 0 | Some i \<Rightarrow> i), p_agent = agentName,
       p_status = Running, p_task = task, p_currentTool = None, p_currentToolArgs = None,
       p_recentTools = [], p_recentOutput = [], p_toolCount = 0, p_tokens = 0,
       p_error = None, p_failedTool = None \<rparr>"

definition initialRunState ::
  "AgentConfig \<Rightarrow> string \<Rightarrow> string \<Rightarrow> RunSyncOptions \<Rightarrow> RunState" where
  "initialRunState agent agentName task options =
     (let effectiveModel = (case o_modelOverride options of Some m \<Rightarrow> Some m | None \<Rightarrow> ac_model agent);
          modelArg = applyThinkingSuffix effectiveModel (ac_thinking agent);
          progress = initialProgress (o_index options) agentName task
      in \<lparr> rs_result =
             \<lparr> r_agent = agentName, r_task = task, r_exitCode = 0, r_messages = [],
               r_usage = zeroUsage, r_model = modelArg, r_error = None,
               r_progress = Some progress \<rparr>,
           rs_progress = progress,
           rs_finalOutputText = [],
           rs_lastToolError = None \<rparr>)"

definition onClose :: "int option \<Rightarrow> string \<Rightarrow> RunState \<Rightarrow> int \<times> RunState" where
  "onClose code stderr st =
     (let stderrBuf = (if length stderr > MAX_STDERR_CHARS
                       then drop (length stderr - MAX_STDERR_CHARS) stderr else stderr)
      in ((case code of None \<Rightarrow> 0 | Some c \<Rightarrow> c),
          (if code \<noteq> Some 0 \<and> js_trim stderrBuf \<noteq> [] \<and> \<not> truthy (r_error (rs_result st))
           then st\<lparr> rs_result := (rs_result st)\<lparr> r_error := Some (js_trim stderrBuf) \<rparr> \<rparr>
           else st)))"

definition toolErrorText :: "ToolError \<Rightarrow> int \<Rightarrow> string" where
  "toolErrorText e exitCode =
     (if truthy (te_details e)
      then te_toolName e @ '' failed (exit '' @ show_int exitCode @ ''): '' @ the (te_details e)
      else te_toolName e @ '' failed with exit code '' @ show_int exitCode)"

definition finishRun :: "int \<Rightarrow> RunState \<Rightarrow> SingleResult" where
  "finishRun exitCode st =
     (let result1 = (rs_result st)\<lparr> r_exitCode := exitCode \<rparr>;
          result2 =
            (if exitCode = 0 \<and> \<not> truthy (r_error result1) \<and> rs_lastToolError st \<noteq> None then
               (let e = the (rs_lastToolError st);
                    ec = (case te_exitCode e of None \<Rightarrow> 1 | Some c \<Rightarrow> c)
                in result1\<lparr> r_exitCode := ec, r_error := Some (toolErrorText e ec) \<rparr>)
             else result1);
          progress = rs_progress st;
          progress1 = progress\<lparr> p_status := (if r_exitCode result2 = 0 then Completed else Failed) \<rparr>;
          progress2 =
            (if truthy (r_error result2) then
               progress1\<lparr> p_error := r_error result2,
                           p_failedTool := (if truthy (p_currentTool progress1)
                                            then p_currentTool progress1
                                            else p_failedTool progress1) \<rparr>
             else progress1)
      in result2\<lparr> r_progress := Some progress2 \<rparr>)"

text \<open>The state when the child has ended, and the exit code the promise resolves with.\<close>

definition runProcess :: "Worker \<Rightarrow> RunState \<Rightarrow> int \<times> RunState" where
  "runProcess world st0 =
     (let st1 = foldl processLine st0 (w_lines world)
      in (case w_exit world of
            Close code \<Rightarrow> onClose code (w_stderr world) st1
          | SpawnError \<Rightarrow> (1, st1)))"

definition runWorker ::
  "AgentConfig \<Rightarrow> string \<Rightarrow> string \<Rightarrow> RunSyncOptions \<Rightarrow> Worker \<Rightarrow> SingleResult" where
  "runWorker agent agentName task options world =
     (let ended = runProcess world (initialRunState agent agentName task options)
      in finishRun (fst ended) (snd ended))"

definition runSync ::
  "AgentConfig list \<Rightarrow> string \<Rightarrow> string \<Rightarrow> RunSyncOptions \<Rightarrow> Worker \<Rightarrow> error + SingleResult" where
  "runSync agents agentName task options world =
     (case findAgent agents agentName of
        None \<Rightarrow> Inr (unknownAgentResult agentName task)
      | Some agent \<Rightarrow>
          (case w_setupError world of
             Some e \<Rightarrow> Inl (Error e)
           | None \<Rightarrow> Inr (runWorker agent agentName task options world)))"

section \<open>jsonl-writer.ts: the backpressured event writer\<close>

text \<open>
  The writer's collaborators are a pausable source and a sink stream. \<open>Sink\<close> is what can
  be observed of them: the chunks passed to \<^verbatim>\<open>write\<close>, the number of calls of
  \<^verbatim>\<open>end\<close>, the listeners registered with \<^verbatim>\<open>once("drain")\<close> and not yet fired, and the
  number of calls of \<^verbatim>\<open>pause\<close> and \<^verbatim>\<open>resume\<close> on the source. What a call of
  \<^verbatim>\<open>write\<close> answers is the sink's business: it is given by a function of the number of
  earlier calls.
\<close>

datatype WriteResult = Accepted | Backpressure | WriteThrows

record Sink =
  k_writes :: "string list"
  k_ended :: nat
  k_drainListeners :: nat
  k_paused :: nat
  k_resumed :: nat

record WriterVars =
  wv_stream :: bool
  wv_backpressured :: bool
  wv_closed :: bool

datatype JsonlWriter = NoOpWriter | StreamWriter WriterVars

text \<open>
  \<^verbatim>\<open>createJsonlWriter(filePath, source, deps)\<close>: \<open>opens\<close> says whether
  \<^verbatim>\<open>createWriteStream\<close> returns a stream (or throws).
\<close>

definition createJsonlWriter :: "string option \<Rightarrow> bool \<Rightarrow> JsonlWriter" where
  "createJsonlWriter filePath opens =
     (if \<not> truthy filePath then NoOpWriter
      else if \<not> opens then NoOpWriter
      else StreamWriter \<lparr> wv_stream = True, wv_backpressured = False, wv_closed = False \<rparr>)"

definition writeLine ::
  "(nat \<Rightarrow> WriteResult) \<Rightarrow> string \<Rightarrow> JsonlWriter \<times> Sink \<Rightarrow> JsonlWriter \<times> Sink" where
  "writeLine answers line ws =
     (case fst ws of
        NoOpWriter \<Rightarrow> ws
      | StreamWriter v \<Rightarrow>
          (if \<not> wv_stream v \<or> wv_closed v \<or> js_trim line = [] then ws
           else
             (let io = snd ws;
                  io1 = io\<lparr> k_writes := k_writes io @ [line @ NL] \<rparr>
              in (case answers (length (k_writes io)) of
                    Accepted \<Rightarrow> (StreamWriter v, io1)
                  | WriteThrows \<Rightarrow> (StreamWriter v, io1)
                  | Backpressure \<Rightarrow>
                      (if \<not> wv_backpressured v then
                         (StreamWriter (v\<lparr> wv_backpressured := True \<rparr>),
                          io1\<lparr> k_paused := k_paused io1 + 1,
                               k_drainListeners := k_drainListeners io1 + 1 \<rparr>)
                       else (StreamWriter v, io1))))))"

definition closeWriter :: "JsonlWriter \<times> Sink \<Rightarrow> JsonlWriter \<times> Sink" where
  "closeWriter ws =
     (case fst ws of
        NoOpWriter \<Rightarrow> ws
      | StreamWriter v \<Rightarrow>
          (if \<not> wv_stream v \<or> wv_closed v then ws
           else (StreamWriter (v\<lparr> wv_closed := True, wv_stream := False \<rparr>),
                 (snd ws)\<lparr> k_ended := k_ended (snd ws) + 1 \<rparr>)))"

text \<open>
  The sink emits \<^verbatim>\<open>drain\<close>: every listener registered with \<^verbatim>\<open>once\<close> runs once and is
  removed. The writer's listener clears the backpressure flag and resumes the source unless
  the writer is closed.
\<close>

definition emitDrain :: "JsonlWriter \<times> Sink \<Rightarrow> JsonlWriter \<times> Sink" where
  "emitDrain ws =
     (case fst ws of
        NoOpWriter \<Rightarrow> ws
      | StreamWriter v \<Rightarrow>
          (let io = snd ws in
           if k_drainListeners io = 0 then ws
           else (StreamWriter (v\<lparr> wv_backpressured := False \<rparr>),
                 io\<lparr> k_drainListeners := 0,
                     k_resumed := (if wv_closed v then k_resumed io
                                   else k_resumed io + k_drainListeners io) \<rparr>)))"

datatype WriterOp = WriteLine string | CloseOp | DrainOp

fun applyOp :: "(nat \<Rightarrow> WriteResult) \<Rightarrow> JsonlWriter \<times> Sink \<Rightarrow> WriterOp \<Rightarrow> JsonlWriter \<times> Sink" where
  "applyOp answers ws (WriteLine line) = writeLine answers line ws"
| "applyOp answers ws CloseOp = closeWriter ws"
| "applyOp answers ws DrainOp = emitDrain ws"

definition runOps ::
  "(nat \<Rightarrow> WriteResult) \<Rightarrow> WriterOp list \<Rightarrow> JsonlWriter \<times> Sink \<Rightarrow> JsonlWriter \<times> Sink" where
  "runOps answers ops ws = foldl (applyOp answers) ws ops"

definition freshSink :: Sink where
  "freshSink = \<lparr> k_writes = [], k_ended = 0, k_drainListeners = 0, k_paused = 0, k_resumed = 0 \<rparr>"

section \<open>parallel-utils.ts: the aggregated text of a parallel group\<close>

text \<open>
  Modelled from the spec: \<^verbatim>\<open>aggregateParallelOutputs\<close> of parallel-utils.ts is not among the
  sources at hand; only its test (parallel-utils.test.ts) is. The specification says: the
  aggregated text is the concatenation of each task's output under a header
  \<^verbatim>\<open>=== Parallel Task {n} ({agent}) ===\<close>, in original task order, and for a failed task it
  contains a failure marker naming the error. The test gives the markers:
  \<^verbatim>\<open>FAILED (exit code N)\<close>, followed by a colon and the error when there is one, for a task
  with a non-zero exit code, and \<^verbatim>\<open>EMPTY OUTPUT\<close> for a task with exit code 0 whose output
  is blank, each after a warning sign. Where neither says more, the model decides: the
  marker is a line of its own before the output, and a task without an exit code (the first
  one of scenario E) is not a failed one. The warning sign is written as the bytes of its
  UTF-8 encoding.

  settings.ts has a function of the same name, \<open>aggregateParallelOutputs\<close> above, which
  \<^verbatim>\<open>executeChain\<close> calls once no task of the group has failed.
\<close>

record TaskOutput =
  to_agent :: string
  to_output :: string
  to_exitCode :: "int option"
  to_error :: "string option"

definition WARNING_SIGN :: string where
  "WARNING_SIGN = [CHR 0xE2, CHR 0x9A, CHR 0xA0, CHR 0xEF, CHR 0xB8, CHR 0x8F]"

definition failureMarker :: "int \<Rightarrow> string option \<Rightarrow> string" where
  "failureMarker exitCode err =
     ''FAILED (exit code '' @ show_int exitCode @ '')''
       @ (if truthy err then '': '' @ the err else [])"

definition taskSection :: "TaskOutput \<Rightarrow> string" where
  "taskSection r =
     (let hasOutput = (js_trim (to_output r) \<noteq> []);
          failed = (case to_exitCode r of None \<Rightarrow> False | Some c \<Rightarrow> c \<noteq> 0);
          status = (if failed then WARNING_SIGN @ '' '' @ failureMarker (the (to_exitCode r)) (to_error r)
                    else if \<not> hasOutput then WARNING_SIGN @ '' EMPTY OUTPUT''
                    else [])
      in if status = [] then to_output r
         else if hasOutput then status @ NL @ to_output r
         else status)"

definition aggregateParallelOutputs_utils :: "TaskOutput list \<Rightarrow> string" where
  "aggregateParallelOutputs_utils results =
     join (NL @ NL)
       (map (\<lambda>(i, r). parallelHeader i (to_agent r) @ NL @ taskSection r) (enumerate 0 results))"

section \<open>utils.ts: the parallel task scheduler\<close>

text \<open>
  Modelled from the spec: \<^verbatim>\<open>mapConcurrent\<close> (utils.ts) is not among the sources at hand; only
  its callers and its tests are. The specification says: given N tasks and a concurrency
  limit K, execute tasks with at most K concurrently in flight; task start order follows
  array order up to the concurrency cap; completion order is unconstrained; result ordering
  is restored by index, not by completion time; errors thrown by a task's own execution
  function propagate to the caller.

  The callback of a task is an \<^verbatim>\<open>async\<close> function. Its first part runs when the
  scheduler calls it (\<open>start\<close>): it raises, or its promise is settled at once, or the task is
  in flight, waiting for an event of the environment. Its second part (\<open>finish\<close>) runs when
  that event comes. Both parts read and write the variables the callback closes over (the
  shared state). Which task in flight completes next, and whether the next task is called
  before one in flight completes, is written in a schedule: the choice at each step. The
  trace records the calls and the settlements in the order they happen.
\<close>

datatype ('r, 'p) Started = Settled 'r | InFlight 'p

datatype Choice = StartNext | Complete nat

datatype PoolEvent = Called nat | Done nat

record ('s, 'r, 'p) Pool =
  pl_next :: nat
  pl_flight :: "(nat \<times> 'p) list"
  pl_results :: "'r option list"
  pl_shared :: 's
  pl_trace :: "PoolEvent list"

datatype ('s, 'r, 'p) PoolEnd =
    Finished "('s, 'r, 'p) Pool"
  | Rejected error 's
  | Stuck "('s, 'r, 'p) Pool"

definition poolStart ::
  "('a \<Rightarrow> nat \<Rightarrow> 's \<Rightarrow> (error + ('r, 'p) Started) \<times> 's) \<Rightarrow> 'a list \<Rightarrow> ('s, 'r, 'p) Pool
     \<Rightarrow> (error \<times> 's) + ('s, 'r, 'p) Pool" where
  "poolStart start items pl =
     (let i = pl_next pl;
          called = start (items ! i) i (pl_shared pl)
      in (case fst called of
            Inl e \<Rightarrow> Inl (e, snd called)
          | Inr (Settled r) \<Rightarrow>
              Inr (pl\<lparr> pl_next := Suc i,
                       pl_results := (pl_results pl)[i := Some r],
                       pl_shared := snd called,
                       pl_trace := pl_trace pl @ [Called i, Done i] \<rparr>)
          | Inr (InFlight p) \<Rightarrow>
              Inr (pl\<lparr> pl_next := Suc i,
                       pl_flight := pl_flight pl @ [(i, p)],
                       pl_shared := snd called,
                       pl_trace := pl_trace pl @ [Called i] \<rparr>)))"

definition poolComplete ::
  "('p \<Rightarrow> 's \<Rightarrow> 'r \<times> 's) \<Rightarrow> nat \<Rightarrow> ('s, 'r, 'p) Pool \<Rightarrow> ('s, 'r, 'p) Pool" where
  "poolComplete finish k pl =
     (let i = fst (pl_flight pl ! k);
          finished = finish (snd (pl_flight pl ! k)) (pl_shared pl)
      in pl\<lparr> pl_flight := take k (pl_flight pl) @ drop (Suc k) (pl_flight pl),
              pl_results := (pl_results pl)[i := Some (fst finished)],
              pl_shared := snd finished,
              pl_trace := pl_trace pl @ [Done i] \<rparr>)"

definition chosen :: "Choice \<Rightarrow> nat \<Rightarrow> nat" where
  "chosen c n = (case c of StartNext \<Rightarrow> 0 | Complete k \<Rightarrow> k mod n)"

lemma poolStart_measure:
  "poolStart start items pl = Inr pl' \<Longrightarrow>
     pl_next pl' = Suc (pl_next pl) \<and> length (pl_flight pl') \<le> Suc (length (pl_flight pl))"
  by (auto simp: poolStart_def Let_def split: sum.splits Started.splits)

lemma poolComplete_measure:
  "k < length (pl_flight pl) \<Longrightarrow>
     pl_next (poolComplete finish k pl) = pl_next pl
     \<and> Suc (length (pl_flight (poolComplete finish k pl))) = length (pl_flight pl)"
  by (auto simp: poolComplete_def Let_def)

lemma chosen_less: "0 < n \<Longrightarrow> chosen c n < n"
  by (cases c) (simp_all add: chosen_def)

function mapLoop ::
  "(nat \<Rightarrow> Choice) \<Rightarrow> ('a \<Rightarrow> nat \<Rightarrow> 's \<Rightarrow> (error + ('r, 'p) Started) \<times> 's) \<Rightarrow> ('p \<Rightarrow> 's \<Rightarrow> 'r \<times> 's)
     \<Rightarrow> 'a list \<Rightarrow> nat \<Rightarrow> nat \<Rightarrow> ('s, 'r, 'p) Pool \<Rightarrow> ('s, 'r, 'p) PoolEnd" where
  "mapLoop sched start finish items limit t pl =
     (if pl_next pl < length items \<and> length (pl_flight pl) < limit
         \<and> (pl_flight pl = [] \<or> sched t = StartNext) then
        (case poolStart start items pl of
           Inl thrown \<Rightarrow> Rejected (fst thrown) (snd thrown)
         | Inr pl' \<Rightarrow> mapLoop sched start finish items limit (Suc t) pl')
      else if pl_flight pl \<noteq> [] then
        mapLoop sched start finish items limit (Suc t)
          (poolComplete finish (chosen (sched t) (length (pl_flight pl))) pl)
      else if pl_next pl < length items then Stuck pl
      else Finished pl)"
  by pat_completeness auto
termination
proof (relation "measure (\<lambda>(sched, start, finish, items, limit, t, pl).
    2 * (length items - pl_next pl) + length (pl_flight pl))", goal_cases)
  case 1
  then show ?case by simp
next
  case (2 sched start finish items limit t pl pl')
  then show ?case using poolStart_measure [of start items pl pl'] by auto
next
  case (3 sched start finish items limit t pl)
  then have "chosen (sched t) (length (pl_flight pl)) < length (pl_flight pl)"
    by (simp add: chosen_less)
  from poolComplete_measure [OF this, of finish] show ?case by auto
qed

declare mapLoop.simps [simp del]

datatype ('s, 'r) MapEnd =
    Resolved "'r option list" 's "PoolEvent list"
  | RejectedWith error 's
  | NeverSettles 's

definition mapConcurrent ::
  "(nat \<Rightarrow> Choice) \<Rightarrow> ('a \<Rightarrow> nat \<Rightarrow> 's \<Rightarrow> (error + ('r, 'p) Started) \<times> 's) \<Rightarrow> ('p \<Rightarrow> 's \<Rightarrow> 'r \<times> 's)
     \<Rightarrow> 'a list \<Rightarrow> nat \<Rightarrow> 's \<Rightarrow> ('s, 'r) MapEnd" where
  "mapConcurrent sched start finish items limit shared =
     (case mapLoop sched start finish items limit 0
        \<lparr> pl_next = 0, pl_flight = [], pl_results = replicate (length items) None,
          pl_shared = shared, pl_trace = [] \<rparr> of
        Finished pl \<Rightarrow> Resolved (pl_results pl) (pl_shared pl) (pl_trace pl)
      | Rejected e s \<Rightarrow> RejectedWith e s
      | Stuck pl \<Rightarrow> NeverSettles (pl_shared pl))"



section \<open>chain-execution.ts: the chain orchestrator\<close>

text \<open>
  What \<^verbatim>\<open>executeChain\<close> does outside its own variables is written in a log of effects, in
  the order they happen: the chain directory is created or removed, the subdirectories of a
  parallel step are created, the progress file is written, a worker process is spawned
  (with the task's index, its agent and its task text).
\<close>

datatype Effect =
    CreateChainDir string
  | RemoveChainDir string
  | CreateParallelDirs string nat "string list"
  | WriteProgressFile string
  | Spawn nat string string

fun isSpawn :: "Effect \<Rightarrow> bool" where
  "isSpawn (Spawn i a t) = True"
| "isSpawn e = False"

fun isRemoveChainDir :: "Effect \<Rightarrow> bool" where
  "isRemoveChainDir (RemoveChainDir d) = True"
| "isRemoveChainDir e = False"

record ChainClarifyResult =
  ccr_confirmed :: bool
  ccr_templates :: "string list"
  ccr_behaviorOverrides :: "StepOverrides option list"

record Details =
  d_results :: "SingleResult list"
  d_progress :: "AgentProgress list option"
  d_chainAgents :: "string list option"
  d_totalSteps :: "nat option"
  d_currentStepIndex :: "nat option"

record ChainExecutionResult =
  cr_text :: string
  cr_details :: Details
  cr_isError :: "bool option"

record ChainExecutionParams =
  cp_chain :: "ChainStep list"
  cp_agents :: "AgentConfig list"
  cp_hasUI :: bool
  cp_runId :: string
  cp_includeProgress :: "bool option"
  cp_clarify :: "bool option"

text \<open>
  The environment of a chain run. \<open>e_worker\<close> says what the environment does for the call
  of \<^verbatim>\<open>runSync\<close> with a given index, agent and task text; \<open>e_clarifyResult\<close> is what the
  clarification dialog resolves with; \<open>e_schedule\<close> is the schedule of each parallel step.
  The other fields are code that the sources at hand call but do not contain:
  \<^verbatim>\<open>getFinalOutput\<close> (utils.ts), \<^verbatim>\<open>buildChainSummary\<close> (formatters.ts), the constant
  \<^verbatim>\<open>MAX_CONCURRENCY\<close> (types.ts), and the library's
  \<^verbatim>\<open>String.prototype.replace\<close> with a global pattern: \<open>e_replaceAll v r s\<close> stands for
  \<^verbatim>\<open>s.replace(/\{v\}/g, r)\<close>.
\<close>

record Environment =
  e_worker :: "nat \<Rightarrow> string \<Rightarrow> string \<Rightarrow> Worker"
  e_clarifyResult :: "ChainClarifyResult option"
  e_schedule :: "nat \<Rightarrow> nat \<Rightarrow> Choice"
  e_getFinalOutput :: "Message list \<Rightarrow> string"
  e_replaceAll :: "string \<Rightarrow> string \<Rightarrow> string \<Rightarrow> string"
  e_buildChainSummary ::
    "ChainStep list \<Rightarrow> SingleResult list \<Rightarrow> string \<Rightarrow> string \<Rightarrow> (nat \<times> string) option \<Rightarrow> string"
  e_MAX_CONCURRENCY :: int

datatype Template = TSeq string | TPar "string list"

text \<open>
  settings.ts has two template resolutions. \<^verbatim>\<open>resolveChainTemplates\<close> takes the agent names,
  the inline tasks and the settings, and reads \<^verbatim>\<open>settings.chains\<close> first; its saved
  templates are given here as the non-empty string, if any, that the lookup of a chain key
  and an agent name yields. \<^verbatim>\<open>resolveChainTemplatesV2\<close> is the parallel-aware one and takes
  the steps.
\<close>

record SubagentSettings =
  ss_chains :: "(string \<Rightarrow> string \<Rightarrow> string option) option"

definition getChainKey :: "string list \<Rightarrow> string" where
  "getChainKey agents = join ''->'' agents"

definition resolveChainTemplates ::
  "string list \<Rightarrow> string option list option \<Rightarrow> SubagentSettings option \<Rightarrow> error + string list" where
  "resolveChainTemplates agentNames inlineTasks settings =
     (let chainKey = getChainKey agentNames in
      case settings of
        None \<Rightarrow> Inl (TypeError ''settings is undefined'')
      | Some s \<Rightarrow>
          (let savedTemplates = (case ss_chains s of None \<Rightarrow> (\<lambda>agent. None) | Some saved \<Rightarrow> saved chainKey)
           in if agentNames = [] then Inr []
              else (case inlineTasks of
                      None \<Rightarrow> Inl (TypeError ''inlineTasks is undefined'')
                    | Some tasks \<Rightarrow>
                        Inr (map (\<lambda>(i, agent).
                                    (let inline = (if i < length tasks then tasks ! i else None)
                                     in if truthy inline then the inline
                                        else (case savedTemplates agent of
                                                Some template \<Rightarrow> template
                                              | None \<Rightarrow> (if i = 0 then ''{task}'' else ''{previous}''))))
                                 (enumerate 0 agentNames)))))"

definition resolveChainTemplatesV2 :: "ChainStep list \<Rightarrow> Template list" where
  "resolveChainTemplatesV2 steps =
     map (\<lambda>(i, step).
            (case step of
               Parallel p \<Rightarrow>
                 TPar (map (\<lambda>task. if truthy (st_task task) then the (st_task task) else ''{previous}'')
                        (ps_parallel p))
             | Sequential seq \<Rightarrow>
                 TSeq (if truthy (st_task seq) then the (st_task seq)
                       else if i = 0 then ''{task}'' else ''{previous}'')))
         (enumerate 0 steps)"

definition CHAIN_RUNS_DIR :: string where
  "CHAIN_RUNS_DIR = ''/tmp/pi-chain-runs''"

text \<open>
  \<^verbatim>\<open>path.join\<close> of Node's POSIX \<^verbatim>\<open>path\<close> module: the non-empty arguments are joined
  with slashes and the result is normalised. \<open>normalizeSegments\<close> walks the segments between
  slashes: an empty segment and \<^verbatim>\<open>.\<close> are dropped, \<^verbatim>\<open>..\<close> removes the segment before it;
  where there is none it is kept in a relative path and dropped in an absolute one. A
  trailing slash stays.
\<close>

fun splitSlash :: "string \<Rightarrow> string list" where
  "splitSlash [] = [[]]"
| "splitSlash (c # cs) =
     (if c = CHR ''/'' then [] # splitSlash cs
      else (case splitSlash cs of [] \<Rightarrow> [[c]] | seg # segs \<Rightarrow> (c # seg) # segs))"

fun normalizeSegments :: "bool \<Rightarrow> string list \<Rightarrow> string list \<Rightarrow> string list" where
  "normalizeSegments allowAboveRoot kept [] = rev kept"
| "normalizeSegments allowAboveRoot kept (seg # segs) =
     (if seg = [] \<or> seg = ''.'' then normalizeSegments allowAboveRoot kept segs
      else if seg = ''..'' then
        (if kept \<noteq> [] \<and> hd kept \<noteq> ''..'' then normalizeSegments allowAboveRoot (tl kept) segs
         else if allowAboveRoot then normalizeSegments allowAboveRoot (''..'' # kept) segs
         else normalizeSegments allowAboveRoot kept segs)
      else normalizeSegments allowAboveRoot (seg # kept) segs)"

definition pathNormalize :: "string \<Rightarrow> string" where
  "pathNormalize p =
     (if p = [] then ''.''
      else (let absolute = (hd p = CHR ''/'');
                trailingSeparator = (last p = CHR ''/'');
                body = join ''/'' (normalizeSegments (\<not> absolute) [] (splitSlash p))
            in if body = [] then (if absolute then ''/'' else if trailingSeparator then ''./'' else ''.'')
               else (if absolute then ''/'' else []) @ body @ (if trailingSeparator then ''/'' else [])))"

definition pathJoin :: "string list \<Rightarrow> string" where
  "pathJoin args =
     (let joined = join ''/'' (filter (\<lambda>arg. arg \<noteq> []) args)
      in if joined = [] then ''.'' else pathNormalize joined)"

definition createChainDir :: "string \<Rightarrow> string" where
  "createChainDir runId = pathJoin [CHAIN_RUNS_DIR, runId]"

definition resolveChainPath :: "string \<Rightarrow> string \<Rightarrow> string" where
  "resolveChainPath filePath chainDir = (if isAbsolute filePath then filePath else chainDir @ ''/'' @ filePath)"

definition buildChainInstructions ::
  "ResolvedStepBehavior \<Rightarrow> string \<Rightarrow> bool \<Rightarrow> string option \<Rightarrow> string" where
  "buildChainInstructions behavior chainDir isFirstProgressAgent previousSummary =
     (let i1 = (case previousSummary of
                  None \<Rightarrow> []
                | Some p \<Rightarrow> (if js_trim p \<noteq> [] then [''Previous step summary:'' @ NL @ NL @ js_trim p] else []));
          i2 = (case rb_reads behavior of
                  Disabled \<Rightarrow> []
                | Enabled reads \<Rightarrow>
                    (if reads \<noteq> [] then
                       [''Read these files: '' @ join '', '' (map (\<lambda>f. resolveChainPath f chainDir) reads)]
                     else []));
          i3 = (case rb_output behavior of
                  Disabled \<Rightarrow> []
                | Enabled out \<Rightarrow>
                    (if out \<noteq> [] then [''Write your output to: '' @ resolveChainPath out chainDir] else []));
          i4 = (if rb_progress behavior then
                  (if isFirstProgressAgent then
                     [''Create and maintain: '' @ chainDir @ ''/progress.md'',
                      ''Format: Status, Tasks (checkboxes), Files Changed, Notes'']
                   else [''Read and update: '' @ chainDir @ ''/progress.md''])
                else []);
          instructions = i1 @ i2 @ i3 @ i4
      in if instructions = [] then []
         else NL @ NL @ ''---'' @ NL @ ''**Chain Instructions:**'' @ NL
              @ join NL (map (\<lambda>i. ''- '' @ i) instructions))"

text \<open>The constants of one chain run, and the variables of its loop over the steps.\<close>

record ChainContext =
  x_chain :: "ChainStep list"
  x_agents :: "AgentConfig list"
  x_chainDir :: string
  x_originalTask :: "string option"
  x_templates :: "Template list"
  x_tuiBehaviorOverrides :: "StepOverrides option list option"
  x_chainAgents :: "string list"
  x_totalSteps :: nat
  x_includeProgress :: bool

record ChainState =
  c_stepIndex :: nat
  c_results :: "SingleResult list"
  c_prev :: string
  c_globalTaskIndex :: nat
  c_progressCreated :: bool
  c_allProgress :: "AgentProgress list"
  c_log :: "Effect list"

text \<open>
  How a step, the loop or the whole call ends: the loop goes on, the function returns a
  result, an exception leaves it, or its promise never settles. The last three carry the
  log of effects at that moment.
\<close>

datatype StepEnd =
    Continue ChainState
  | Return ChainExecutionResult "Effect list"
  | Throw error "Effect list"
  | Hang "Effect list"

definition substitute :: "Environment \<Rightarrow> string option \<Rightarrow> string \<Rightarrow> string \<Rightarrow> string \<Rightarrow> string" where
  "substitute env originalTask prev chainDir template =
     e_replaceAll env ''chain_dir'' chainDir
       (e_replaceAll env ''previous'' prev
         (e_replaceAll env ''task'' (case originalTask of None \<Rightarrow> ''undefined'' | Some t \<Rightarrow> t) template))"

definition nthOpt :: "'a list \<Rightarrow> nat \<Rightarrow> 'a option" where
  "nthOpt xs i = (if i < length xs then Some (xs ! i) else None)"

definition pushProgress :: "SingleResult \<Rightarrow> AgentProgress list \<Rightarrow> AgentProgress list" where
  "pushProgress r allProgress =
     (case r_progress r of None \<Rightarrow> allProgress | Some p \<Rightarrow> allProgress @ [p])"

definition unknownAgentChainResult :: "string \<Rightarrow> ChainExecutionResult" where
  "unknownAgentChainResult agentName =
     \<lparr> cr_text = ''Unknown agent: '' @ agentName,
       cr_details = \<lparr> d_results = [], d_progress = None, d_chainAgents = None,
                      d_totalSteps = None, d_currentStepIndex = None \<rparr>,
       cr_isError = Some True \<rparr>"

definition cancelledResult :: ChainExecutionResult where
  "cancelledResult =
     \<lparr> cr_text = ''Chain cancelled'',
       cr_details = \<lparr> d_results = [], d_progress = None, d_chainAgents = None,
                      d_totalSteps = None, d_currentStepIndex = None \<rparr>,
       cr_isError = None \<rparr>"

definition failureResult ::
  "Environment \<Rightarrow> ChainContext \<Rightarrow> ChainState \<Rightarrow> string \<Rightarrow> ChainExecutionResult" where
  "failureResult env ctx st errorText =
     \<lparr> cr_text = e_buildChainSummary env (x_chain ctx) (c_results st) (x_chainDir ctx) ''failed''
                   (Some (c_stepIndex st, errorText)),
       cr_details = \<lparr> d_results = c_results st,
                      d_progress = (if x_includeProgress ctx then Some (c_allProgress st) else None),
                      d_chainAgents = Some (x_chainAgents ctx),
                      d_totalSteps = Some (x_totalSteps ctx),
                      d_currentStepIndex = Some (c_stepIndex st) \<rparr>,
       cr_isError = Some True \<rparr>"

definition completedResult ::
  "Environment \<Rightarrow> ChainContext \<Rightarrow> ChainState \<Rightarrow> ChainExecutionResult" where
  "completedResult env ctx st =
     \<lparr> cr_text = e_buildChainSummary env (x_chain ctx) (c_results st) (x_chainDir ctx) ''completed'' None,
       cr_details = \<lparr> d_results = c_results st,
                      d_progress = (if x_includeProgress ctx then Some (c_allProgress st) else None),
                      d_chainAgents = Some (x_chainAgents ctx),
                      d_totalSteps = Some (x_totalSteps ctx),
                      d_currentStepIndex = None \<rparr>,
       cr_isError = None \<rparr>"

subsection \<open>A sequential step\<close>

definition sequentialOverride :: "ChainContext \<Rightarrow> nat \<Rightarrow> SequentialStep \<Rightarrow> StepOverrides" where
  "sequentialOverride ctx stepIndex seqStep =
     (let tuiOverride = (case x_tuiBehaviorOverrides ctx of
                           None \<Rightarrow> None
                         | Some ovs \<Rightarrow> (case nthOpt ovs stepIndex of None \<Rightarrow> None | Some ov \<Rightarrow> ov))
      in (case tuiOverride of
            None \<Rightarrow>
              \<lparr> so_output = st_output seqStep, so_reads = st_reads seqStep,
                so_progress = st_progress seqStep \<rparr>
          | Some t \<Rightarrow>
              \<lparr> so_output = (if so_output t \<noteq> None then so_output t else st_output seqStep),
                so_reads = (if so_reads t \<noteq> None then so_reads t else st_reads seqStep),
                so_progress = (if so_progress t \<noteq> None then so_progress t else st_progress seqStep) \<rparr>))"

definition sequentialTask ::
  "Environment \<Rightarrow> ChainContext \<Rightarrow> AgentConfig \<Rightarrow> SequentialStep \<Rightarrow> string \<Rightarrow> ChainState \<Rightarrow> string" where
  "sequentialTask env ctx agentConfig seqStep stepTemplate st =
     (let templateHasPrevious = js_includes stepTemplate ''{previous}'';
          stepTask = substitute env (x_originalTask ctx) (c_prev st) (x_chainDir ctx) stepTemplate;
          behavior = resolveStepBehavior agentConfig (sequentialOverride ctx (c_stepIndex st) seqStep);
          isFirstProgress = (rb_progress behavior \<and> \<not> c_progressCreated st)
      in stepTask @ buildChainInstructions behavior (x_chainDir ctx) isFirstProgress
           (if templateHasPrevious then None else Some (c_prev st)))"

definition sequentialStep ::
  "Environment \<Rightarrow> ChainContext \<Rightarrow> SequentialStep \<Rightarrow> ChainState \<Rightarrow> StepEnd" where
  "sequentialStep env ctx seqStep st =
     (case findAgent (x_agents ctx) (st_agent seqStep) of
        None \<Rightarrow>
          Return (unknownAgentChainResult (st_agent seqStep)) (c_log st @ [RemoveChainDir (x_chainDir ctx)])
      | Some agentConfig \<Rightarrow>
          (case nthOpt (x_templates ctx) (c_stepIndex st) of
             None \<Rightarrow> Throw (TypeError ''stepTemplate is undefined'') (c_log st)
           | Some (TPar ts) \<Rightarrow> Throw (TypeError ''stepTask.replace is not a function'') (c_log st)
           | Some (TSeq stepTemplate) \<Rightarrow>
               (let stepTask = sequentialTask env ctx agentConfig seqStep stepTemplate st;
                    behavior = resolveStepBehavior agentConfig (sequentialOverride ctx (c_stepIndex st) seqStep);
                    progressCreated = (c_progressCreated st \<or> rb_progress behavior);
                    index = c_globalTaskIndex st
                in (case runSync (x_agents ctx) (st_agent seqStep) stepTask
                           \<lparr> o_index = Some index, o_modelOverride = None \<rparr>
                           (e_worker env index (st_agent seqStep) stepTask) of
                      Inl e \<Rightarrow> Throw e (c_log st)
                    | Inr r \<Rightarrow>
                        (let st1 = st\<lparr> c_globalTaskIndex := index + 1,
                                        c_results := c_results st @ [r],
                                        c_allProgress := pushProgress r (c_allProgress st),
                                        c_progressCreated := progressCreated,
                                        c_log := c_log st @ [Spawn index (st_agent seqStep) stepTask] \<rparr>
                         in if r_exitCode r \<noteq> 0 then
                              Return (failureResult env ctx st1
                                        (if truthy (r_error r) then the (r_error r) else ''Chain failed''))
                                     (c_log st1)
                            else Continue (st1\<lparr> c_prev := e_getFinalOutput env (r_messages r),
                                                c_stepIndex := Suc (c_stepIndex st) \<rparr>))))))"

subsection \<open>A parallel step\<close>

text \<open>
  The callback that \<^verbatim>\<open>executeChain\<close> hands to the scheduler closes over the constants of
  the step and over the variable \<^verbatim>\<open>aborted\<close>; with the log of effects, that variable is
  the shared state of the scheduler.
\<close>

record ParallelContext =
  pc_agents :: "AgentConfig list"
  pc_failFast :: bool
  pc_templates :: "string list option"
  pc_behaviors :: "ResolvedStepBehavior list"
  pc_originalTask :: "string option"
  pc_prev :: string
  pc_chainDir :: string
  pc_globalTaskIndex :: nat

record ParallelShared =
  sh_aborted :: bool
  sh_log :: "Effect list"

definition skippedResult :: "ParallelTaskItem \<Rightarrow> SingleResult" where
  "skippedResult task =
     \<lparr> r_agent = st_agent task, r_task = ''(skipped)'', r_exitCode = - 1, r_messages = [],
       r_usage = zeroUsage, r_model = None, r_error = Some ''Skipped due to fail-fast'',
       r_progress = None \<rparr>"

definition parallelTask ::
  "Environment \<Rightarrow> ParallelContext \<Rightarrow> string list \<Rightarrow> nat \<Rightarrow> string" where
  "parallelTask env pc parallelTemplates taskIndex =
     (let taskTemplate = (case nthOpt parallelTemplates taskIndex of None \<Rightarrow> ''{previous}'' | Some t \<Rightarrow> t);
          templateHasPrevious = js_includes taskTemplate ''{previous}'';
          taskStr = substitute env (pc_originalTask pc) (pc_prev pc) (pc_chainDir pc) taskTemplate
      in taskStr @ buildChainInstructions (pc_behaviors pc ! taskIndex) (pc_chainDir pc) False
           (if templateHasPrevious then None else Some (pc_prev pc)))"

text \<open>
  The first part of the callback, up to the point where \<^verbatim>\<open>runSync\<close> waits for the child
  process. When \<^verbatim>\<open>runSync\<close> finds no agent of that name it spawns nothing and its promise
  is already resolved; the callback is resumed like one whose child has ended.
\<close>

definition parallelStart ::
  "Environment \<Rightarrow> ParallelContext \<Rightarrow> ParallelTaskItem \<Rightarrow> nat \<Rightarrow> ParallelShared
     \<Rightarrow> (error + (SingleResult, ParallelTaskItem \<times> nat) Started) \<times> ParallelShared" where
  "parallelStart env pc task taskIndex sh =
     (if sh_aborted sh \<and> pc_failFast pc then (Inr (Settled (skippedResult task)), sh)
      else
        (case pc_templates pc of
           None \<Rightarrow> (Inl (TypeError ''parallelTemplates is undefined''), sh)
         | Some parallelTemplates \<Rightarrow>
             (if \<not> taskIndex < length (pc_behaviors pc)
              then (Inl (TypeError ''behavior is undefined''), sh)
              else
                (let taskStr = parallelTask env pc parallelTemplates taskIndex;
                     index = pc_globalTaskIndex pc + taskIndex
                 in (case findAgent (pc_agents pc) (st_agent task) of
                       None \<Rightarrow> (Inr (InFlight (task, taskIndex)), sh)
                     | Some agent \<Rightarrow>
                         (case w_setupError (e_worker env index (st_agent task) taskStr) of
                            Some e \<Rightarrow> (Inl (Error e), sh)
                          | None \<Rightarrow>
                              (Inr (InFlight (task, taskIndex)),
                               sh\<lparr> sh_log := sh_log sh @ [Spawn index (st_agent task) taskStr] \<rparr>)))))))"

text \<open>The result \<^verbatim>\<open>runSync\<close> resolves with for a task of the step.\<close>

definition parallelTaskResult ::
  "Environment \<Rightarrow> ParallelContext \<Rightarrow> ParallelTaskItem \<Rightarrow> nat \<Rightarrow> SingleResult" where
  "parallelTaskResult env pc task taskIndex =
     (let taskStr = parallelTask env pc (case pc_templates pc of None \<Rightarrow> [] | Some ts \<Rightarrow> ts) taskIndex;
          index = pc_globalTaskIndex pc + taskIndex
      in (case findAgent (pc_agents pc) (st_agent task) of
            None \<Rightarrow> unknownAgentResult (st_agent task) taskStr
          | Some agent \<Rightarrow>
              runWorker agent (st_agent task) taskStr \<lparr> o_index = Some index, o_modelOverride = None \<rparr>
                (e_worker env index (st_agent task) taskStr)))"

text \<open>The second part of the callback, after \<^verbatim>\<open>await runSync(...)\<close>.\<close>

definition parallelFinish ::
  "Environment \<Rightarrow> ParallelContext \<Rightarrow> ParallelTaskItem \<times> nat \<Rightarrow> ParallelShared
     \<Rightarrow> SingleResult \<times> ParallelShared" where
  "parallelFinish env pc pending sh =
     (let r = parallelTaskResult env pc (fst pending) (snd pending)
      in (r, (if r_exitCode r \<noteq> 0 \<and> pc_failFast pc then sh\<lparr> sh_aborted := True \<rparr> else sh)))"

definition parallelFailures :: "SingleResult list \<Rightarrow> (nat \<times> SingleResult) list" where
  "parallelFailures parallelResults =
     filter (\<lambda>(originalIndex, r). r_exitCode r \<noteq> 0 \<and> r_exitCode r \<noteq> - 1) (enumerate 0 parallelResults)"

definition parallelErrorMsg :: "nat \<Rightarrow> (nat \<times> SingleResult) list \<Rightarrow> string" where
  "parallelErrorMsg stepIndex failures =
     ''Parallel step '' @ show_nat (stepIndex + 1) @ '' failed:'' @ NL
       @ join NL (map (\<lambda>(originalIndex, f).
            ''- Task '' @ show_nat (originalIndex + 1) @ '' ('' @ r_agent f @ ''): ''
              @ (if truthy (r_error f) then the (r_error f) else ''failed'')) failures)"

definition parallelTaskResults :: "Environment \<Rightarrow> SingleResult list \<Rightarrow> ParallelTaskResult list" where
  "parallelTaskResults env parallelResults =
     map (\<lambda>(i, r). \<lparr> ptr_agent = r_agent r, ptr_taskIndex = i,
                      ptr_output = e_getFinalOutput env (r_messages r),
                      ptr_exitCode = r_exitCode r, ptr_error = r_error r \<rparr>)
         (enumerate 0 parallelResults)"

definition parallelContext :: "ChainContext \<Rightarrow> ParallelStep \<Rightarrow> ResolvedStepBehavior list \<Rightarrow> ChainState
    \<Rightarrow> ParallelContext" where
  "parallelContext ctx step parallelBehaviors st =
     \<lparr> pc_agents = x_agents ctx,
       pc_failFast = (case ps_failFast step of None \<Rightarrow> False | Some b \<Rightarrow> b),
       pc_templates = (case nthOpt (x_templates ctx) (c_stepIndex st) of
                         Some (TPar ts) \<Rightarrow> Some ts | Some (TSeq t) \<Rightarrow> None | None \<Rightarrow> None),
       pc_behaviors = parallelBehaviors,
       pc_originalTask = x_originalTask ctx,
       pc_prev = c_prev st,
       pc_chainDir = x_chainDir ctx,
       pc_globalTaskIndex = c_globalTaskIndex st \<rparr>"

definition parallelStep ::
  "Environment \<Rightarrow> ChainContext \<Rightarrow> ParallelStep \<Rightarrow> ChainState \<Rightarrow> StepEnd" where
  "parallelStep env ctx step st =
     (let stepIndex = c_stepIndex st;
          concurrency = (case ps_concurrency step of None \<Rightarrow> e_MAX_CONCURRENCY env | Some c \<Rightarrow> c);
          agentNames = map st_agent (ps_parallel step);
          log1 = c_log st @ [CreateParallelDirs (x_chainDir ctx) stepIndex agentNames]
      in (case resolveParallelBehaviors (ps_parallel step) (x_agents ctx) stepIndex of
            Inl e \<Rightarrow> Throw e log1
          | Inr parallelBehaviors \<Rightarrow>
              (let createProgress = (list_ex rb_progress parallelBehaviors \<and> \<not> c_progressCreated st);
                   log2 = (if createProgress
                           then log1 @ [WriteProgressFile (pathJoin [x_chainDir ctx, ''progress.md''])] else log1);
                   pc = parallelContext ctx step parallelBehaviors st
               in (case mapConcurrent (e_schedule env stepIndex) (parallelStart env pc)
                          (parallelFinish env pc) (ps_parallel step) (nat concurrency)
                          \<lparr> sh_aborted = False, sh_log = log2 \<rparr> of
                     RejectedWith e sh \<Rightarrow> Throw e (sh_log sh)
                   | NeverSettles sh \<Rightarrow> Hang (sh_log sh)
                   | Resolved slots sh tr \<Rightarrow>
                       (case those slots of
                          None \<Rightarrow> Throw (TypeError ''a result is undefined'') (sh_log sh)
                        | Some parallelResults \<Rightarrow>
                            (let st1 = st\<lparr> c_globalTaskIndex := c_globalTaskIndex st + length (ps_parallel step),
                                            c_results := c_results st @ parallelResults,
                                            c_allProgress := foldl (\<lambda>ps r. pushProgress r ps)
                                                               (c_allProgress st) parallelResults,
                                            c_progressCreated := (c_progressCreated st \<or> createProgress),
                                            c_log := sh_log sh \<rparr>;
                                 failures = parallelFailures parallelResults
                             in if failures \<noteq> [] then
                                  Return (failureResult env ctx st1 (parallelErrorMsg stepIndex failures))
                                         (c_log st1)
                                else Continue
                                  (st1\<lparr> c_prev := aggregateParallelOutputs (parallelTaskResults env parallelResults),
                                        c_stepIndex := Suc stepIndex \<rparr>)))))))"

subsection \<open>The loop over the steps and the whole function\<close>

fun chainStep :: "Environment \<Rightarrow> ChainContext \<Rightarrow> ChainStep \<Rightarrow> ChainState \<Rightarrow> StepEnd" where
  "chainStep env ctx (Parallel step) st = parallelStep env ctx step st"
| "chainStep env ctx (Sequential seqStep) st = sequentialStep env ctx seqStep st"

fun chainLoop :: "Environment \<Rightarrow> ChainContext \<Rightarrow> ChainStep list \<Rightarrow> ChainState \<Rightarrow> StepEnd" where
  "chainLoop env ctx [] st = Continue st"
| "chainLoop env ctx (step # steps) st =
     (case chainStep env ctx step st of
        Continue st' \<Rightarrow> chainLoop env ctx steps st'
      | Return res effs \<Rightarrow> Return res effs
      | Throw e effs \<Rightarrow> Throw e effs
      | Hang effs \<Rightarrow> Hang effs)"

fun stepLabel :: "ChainStep \<Rightarrow> string" where
  "stepLabel (Parallel step) = ''['' @ join ''+'' (map st_agent (ps_parallel step)) @ '']''"
| "stepLabel (Sequential seqStep) = st_agent seqStep"

fun sequentialSteps :: "ChainStep list \<Rightarrow> SequentialStep list" where
  "sequentialSteps [] = []"
| "sequentialSteps (Sequential s # steps) = s # sequentialSteps steps"
| "sequentialSteps (Parallel p # steps) = sequentialSteps steps"

text \<open>
  The first step gives the original task. An empty chain, or a first step that is an empty
  parallel group, makes \<^verbatim>\<open>executeChain\<close> read a property of \<^verbatim>\<open>undefined\<close>.
\<close>

fun originalTaskOf :: "ChainStep list \<Rightarrow> error + string option" where
  "originalTaskOf [] = Inl (TypeError ''firstStep is undefined'')"
| "originalTaskOf (Sequential s # steps) = Inr (st_task s)"
| "originalTaskOf (Parallel p # steps) =
     (case ps_parallel p of
        [] \<Rightarrow> Inl (TypeError ''firstStep.parallel[0] is undefined'')
      | t # ts \<Rightarrow> Inr (st_task t))"

definition initialState :: "string \<Rightarrow> ChainState" where
  "initialState chainDir =
     \<lparr> c_stepIndex = 0, c_results = [], c_prev = [], c_globalTaskIndex = 0,
       c_progressCreated = False, c_allProgress = [], c_log = [CreateChainDir chainDir] \<rparr>"

definition chainContext ::
  "ChainExecutionParams \<Rightarrow> string option \<Rightarrow> Template list \<Rightarrow> StepOverrides option list option
     \<Rightarrow> ChainContext" where
  "chainContext params originalTask templates overrides =
     \<lparr> x_chain = cp_chain params,
       x_agents = cp_agents params,
       x_chainDir = createChainDir (cp_runId params),
       x_originalTask = originalTask,
       x_templates = templates,
       x_tuiBehaviorOverrides = overrides,
       x_chainAgents = map stepLabel (cp_chain params),
       x_totalSteps = length (cp_chain params),
       x_includeProgress = (cp_includeProgress params = Some True) \<rparr>"

definition runChain :: "Environment \<Rightarrow> ChainContext \<Rightarrow> StepEnd" where
  "runChain env ctx =
     (case chainLoop env ctx (x_chain ctx) (initialState (x_chainDir ctx)) of
        Continue st \<Rightarrow> Return (completedResult env ctx st) (c_log st)
      | Return res effs \<Rightarrow> Return res effs
      | Throw e effs \<Rightarrow> Throw e effs
      | Hang effs \<Rightarrow> Hang effs)"

definition shouldClarify :: "ChainExecutionParams \<Rightarrow> bool" where
  "shouldClarify params =
     (cp_clarify params \<noteq> Some False \<and> cp_hasUI params \<and> \<not> list_ex isParallelStep (cp_chain params))"

text \<open>
  The part of \<^verbatim>\<open>executeChain\<close> before the loop. It reads the task of the first step (an
  exception for a chain without one), creates the chain directory and calls
  \<^verbatim>\<open>resolveChainTemplates(chainSteps)\<close>: the steps stand where the agent names are expected
  (\<^verbatim>\<open>join\<close> writes an object as \<^verbatim>\<open>[object Object]\<close>), and the inline tasks and the
  settings are \<^verbatim>\<open>undefined\<close>. What follows the call is the preparation of the clarification
  dialog (an unknown agent found there, or a dialog that is not confirmed, ends the call)
  and the constants the loop runs with.
\<close>

definition objectToString :: "ChainStep \<Rightarrow> string" where
  "objectToString step = ''[object Object]''"

definition startChain :: "Environment \<Rightarrow> ChainExecutionParams \<Rightarrow> StepEnd + ChainContext" where
  "startChain env params =
     (case originalTaskOf (cp_chain params) of
        Inl e \<Rightarrow> Inl (Throw e [])
      | Inr originalTask \<Rightarrow>
          (let chainDir = createChainDir (cp_runId params)
           in (case resolveChainTemplates (map objectToString (cp_chain params)) None None of
                 Inl e \<Rightarrow> Inl (Throw e [CreateChainDir chainDir])
               | Inr resolved \<Rightarrow>
                   (let templates = map TSeq resolved
                    in if shouldClarify params then
                         (case find (\<lambda>step. findAgent (cp_agents params) (st_agent step) = None)
                                 (sequentialSteps (cp_chain params)) of
                            Some step \<Rightarrow>
                              Inl (Return (unknownAgentChainResult (st_agent step))
                                     [CreateChainDir chainDir, RemoveChainDir chainDir])
                          | None \<Rightarrow>
                              (case e_clarifyResult env of
                                 None \<Rightarrow>
                                   Inl (Return cancelledResult [CreateChainDir chainDir, RemoveChainDir chainDir])
                               | Some result \<Rightarrow>
                                   (if \<not> ccr_confirmed result
                                    then Inl (Return cancelledResult
                                                [CreateChainDir chainDir, RemoveChainDir chainDir])
                                    else Inr (chainContext params originalTask (map TSeq (ccr_templates result))
                                                (Some (ccr_behaviorOverrides result))))))
                       else Inr (chainContext params originalTask templates None)))))"

definition executeChain :: "Environment \<Rightarrow> ChainExecutionParams \<Rightarrow> StepEnd" where
  "executeChain env params =
     (case startChain env params of
        Inl ended \<Rightarrow> ended
      | Inr ctx \<Rightarrow> runChain env ctx)"

text \<open>The number of leaf tasks of a list of steps (\<^verbatim>\<open>getStepTaskCount\<close>, summed).\<close>

fun getStepTaskCount :: "ChainStep \<Rightarrow> nat" where
  "getStepTaskCount (Parallel step) = length (ps_parallel step)"
| "getStepTaskCount (Sequential seqStep) = 1"

definition leafCount :: "ChainStep list \<Rightarrow> nat" where
  "leafCount steps = sum_list (map getStepTaskCount steps)"

text \<open>
  A schedule-independent invariant of a parallel step's pool: one result slot per task, and
  a log that grew by spawns only.
\<close>

definition spawnsOnly ::
  "Effect list \<Rightarrow> nat \<Rightarrow> (ParallelShared, SingleResult, ParallelTaskItem \<times> nat) Pool \<Rightarrow> bool" where
  "spawnsOnly log0 n pl =
     (length (pl_results pl) = n
      \<and> (\<exists>new. sh_log (pl_shared pl) = log0 @ new \<and> list_all isSpawn new))"

section \<open>Specification-level notions and example data\<close>

text \<open>
  The specification's rule for one field of a behaviour:
  \<^verbatim>\<open>effective = override ?? agentDefault ?? disabled\<close>.
\<close>

definition effective :: "'a option \<Rightarrow> 'a option \<Rightarrow> 'a \<Rightarrow> 'a" where
  "effective override agentDefault disabled =
     (case override of
        Some v \<Rightarrow> v
      | None \<Rightarrow> (case agentDefault of Some d \<Rightarrow> d | None \<Rightarrow> disabled))"

text \<open>How \<^verbatim>\<open>resolveParallelBehaviors\<close> places an output path under the task's subdirectory.\<close>

definition namespaced :: "string \<Rightarrow> string or_false \<Rightarrow> string or_false" where
  "namespaced subdir out =
     (case out of
        Disabled \<Rightarrow> Disabled
      | Enabled p \<Rightarrow> (if isAbsolute p then Enabled p else Enabled (subdir @ ''/'' @ p)))"

definition ringsBounded :: "AgentProgress \<Rightarrow> bool" where
  "ringsBounded p = (length (p_recentTools p) \<le> 5 \<and> length (p_recentOutput p) \<le> 50)"

definition exampleAgent :: "string \<Rightarrow> AgentConfig" where
  "exampleAgent nm =
     \<lparr> ac_name = nm, ac_output = None, ac_defaultReads = None, ac_defaultProgress = None,
       ac_model = None, ac_thinking = None \<rparr>"

definition exampleTask :: "string \<Rightarrow> string or_false option \<Rightarrow> ParallelTaskItem" where
  "exampleTask nm out =
     \<lparr> st_agent = nm, st_task = None, st_cwd = None, st_output = out, st_reads = None,
       st_progress = None \<rparr>"

definition exampleOptions :: RunSyncOptions where
  "exampleOptions = \<lparr> o_index = None, o_modelOverride = None \<rparr>"

definition toolResultMessage :: "string \<Rightarrow> string \<Rightarrow> bool \<Rightarrow> Message" where
  "toolResultMessage tool text isErr =
     \<lparr> m_role = ''toolResult'', m_usage = None, m_model = None, m_errorMessage = None,
       m_text = text, m_toolName = Some tool, m_isError = isErr \<rparr>"

definition assistantMessage :: "string \<Rightarrow> string option \<Rightarrow> Message" where
  "assistantMessage text err =
     \<lparr> m_role = ''assistant'', m_usage = None, m_model = None, m_errorMessage = err,
       m_text = text, m_toolName = None, m_isError = False \<rparr>"

definition exampleWorker :: "Line list \<Rightarrow> int \<Rightarrow> Worker" where
  "exampleWorker ls code =
     \<lparr> w_setupError = None, w_lines = ls, w_stderr = [], w_exit = Close (Some code) \<rparr>"

text \<open>Scenario E of the specification: task a has the output "ok", task b failed.\<close>

definition scenarioE :: "TaskOutput list" where
  "scenarioE =
     [\<lparr> to_agent = ''a'', to_output = ''ok'', to_exitCode = None, to_error = None \<rparr>,
      \<lparr> to_agent = ''b'', to_output = [], to_exitCode = Some 1, to_error = Some ''timeout'' \<rparr>]"

text \<open>
  Notions for the hidden failure of a worker. The last tool result of a run is the last
  line that is a \<^verbatim>\<open>tool_result_end\<close> event with a message. It reports a failure when it is
  marked as an error or when it is a result of the tool \<^verbatim>\<open>bash\<close> whose text gives an exit
  code other than 0; the exit code it reports is the one its text gives when the tool is
  \<^verbatim>\<open>bash\<close> and there is one, and 1 otherwise. A line records an error message when it is
  a \<^verbatim>\<open>message_end\<close> event whose message has a non-empty \<^verbatim>\<open>errorMessage\<close>.
\<close>

definition resultToolName :: "Message \<Rightarrow> string option \<Rightarrow> string" where
  "resultToolName msg evtToolName =
     (if truthy (m_toolName msg) then the (m_toolName msg)
      else if truthy evtToolName then the evtToolName else ''tool'')"

definition reportsFailure :: "Message \<Rightarrow> string option \<Rightarrow> bool" where
  "reportsFailure msg evtToolName =
     (m_isError msg
      \<or> (resultToolName msg evtToolName = ''bash''
          \<and> (case parseExitCode (m_text msg) of None \<Rightarrow> False | Some c \<Rightarrow> c \<noteq> 0)))"

definition reportedExitCode :: "Message \<Rightarrow> string option \<Rightarrow> int" where
  "reportedExitCode msg evtToolName =
     (if resultToolName msg evtToolName = ''bash''
      then (case parseExitCode (m_text msg) of None \<Rightarrow> 1 | Some c \<Rightarrow> c)
      else 1)"

definition reportedError :: "Message \<Rightarrow> string option \<Rightarrow> ToolError" where
  "reportedError msg evtToolName =
     \<lparr> te_toolName = resultToolName msg evtToolName,
       te_exitCode = Some (reportedExitCode msg evtToolName),
       te_details = (if m_text msg \<noteq> [] then Some (take 200 (m_text msg)) else None) \<rparr>"

fun toolResultOf :: "Line \<Rightarrow> (Message \<times> string option) option" where
  "toolResultOf (Parsed (ToolResultEnd (Some msg) evtToolName)) = Some (msg, evtToolName)"
| "toolResultOf l = None"

fun lastToolResult :: "Line list \<Rightarrow> (Message \<times> string option) option" where
  "lastToolResult [] = None"
| "lastToolResult (l # ls) =
     (case lastToolResult ls of
        Some found \<Rightarrow> Some found
      | None \<Rightarrow> toolResultOf l)"

fun recordsErrorMessage :: "Line \<Rightarrow> bool" where
  "recordsErrorMessage (Parsed (MessageEnd (Some msg))) = truthy (m_errorMessage msg)"
| "recordsErrorMessage l = False"

text \<open>
  The state of a stream writer and its sink agree: the stream is held exactly while the
  writer is open, and \<^verbatim>\<open>end\<close> has been called once if the writer is closed and never
  otherwise.
\<close>

definition writerConsistent :: "JsonlWriter \<times> Sink \<Rightarrow> bool" where
  "writerConsistent ws =
     (case fst ws of
        NoOpWriter \<Rightarrow> True
      | StreamWriter v \<Rightarrow>
          wv_stream v = (\<not> wv_closed v) \<and> k_ended (snd ws) = (if wv_closed v then 1 else 0))"


text \<open>
  \<^verbatim>\<open>s.replace(/\{v\}/g, r)\<close> of the library: every occurrence of \<^verbatim>\<open>{v}\<close> in \<open>s\<close>, from
  left to right, is replaced by the expansion of \<open>r\<close>. In \<open>r\<close> the pattern \<^verbatim>\<open>$$\<close> stands for
  a dollar sign, \<^verbatim>\<open>$&\<close> for the matched text, and a dollar sign before a backquote or a
  quote for the part of \<open>s\<close> before or after the match; the pattern has no group, so every
  other dollar sign stands for itself.
\<close>

fun expandReplacement :: "string \<Rightarrow> string \<Rightarrow> string \<Rightarrow> string \<Rightarrow> string" where
  "expandReplacement matched preceding following [] = []"
| "expandReplacement matched preceding following [c] = [c]"
| "expandReplacement matched preceding following (c # d # cs) =
     (if c = CHR ''$'' \<and> d = CHR ''$'' then CHR ''$'' # expandReplacement matched preceding following cs
      else if c = CHR ''$'' \<and> d = CHR ''&'' then matched @ expandReplacement matched preceding following cs
      else if c = CHR ''$'' \<and> d = CHR 0x60 then preceding @ expandReplacement matched preceding following cs
      else if c = CHR ''$'' \<and> d = CHR 0x27 then following @ expandReplacement matched preceding following cs
      else c # expandReplacement matched preceding following (d # cs))"

fun replaceVarFrom :: "string \<Rightarrow> string \<Rightarrow> string \<Rightarrow> string \<Rightarrow> string" where
  "replaceVarFrom v r preceding [] = []"
| "replaceVarFrom v r preceding (c # cs) =
     (if startsWith (c # cs) (''{'' @ v @ ''}'')
      then expandReplacement (''{'' @ v @ ''}'') preceding (drop (Suc (length v)) cs) r
             @ replaceVarFrom v r (preceding @ ''{'' @ v @ ''}'') (drop (Suc (length v)) cs)
      else c # replaceVarFrom v r (preceding @ [c]) cs)"

definition replaceVar :: "string \<Rightarrow> string \<Rightarrow> string \<Rightarrow> string" where
  "replaceVar v r s = replaceVarFrom v r [] s"

text \<open>
  An example environment: the final output is the text of the last stored message, the
  summary is the status word, and every parallel step starts its tasks as early as the limit
  allows.
\<close>

definition exampleEnvironment :: "(nat \<Rightarrow> Worker) \<Rightarrow> Environment" where
  "exampleEnvironment workers =
     \<lparr> e_worker = (\<lambda>index agent task. workers index),
       e_clarifyResult = None,
       e_schedule = (\<lambda>stepIndex t. StartNext),
       e_getFinalOutput = (\<lambda>messages. case messages of [] \<Rightarrow> [] | m # ms \<Rightarrow> m_text (last messages)),
       e_replaceAll = replaceVar,
       e_buildChainSummary = (\<lambda>steps results chainDir status failed. status),
       e_MAX_CONCURRENCY = 4 \<rparr>"

definition exampleStep :: "string \<Rightarrow> string option \<Rightarrow> ChainStep" where
  "exampleStep nm task =
     Sequential \<lparr> st_agent = nm, st_task = task, st_cwd = None, st_output = None, st_reads = None,
                  st_progress = None \<rparr>"

definition exampleParams :: "ChainStep list \<Rightarrow> AgentConfig list \<Rightarrow> ChainExecutionParams" where
  "exampleParams chain agents =
     \<lparr> cp_chain = chain, cp_agents = agents, cp_hasUI = False, cp_runId = ''run1'',
       cp_includeProgress = None, cp_clarify = Some False \<rparr>"

text \<open>A worker that answers with one assistant message and exits with code 0.\<close>

definition succeedingWorker :: "string \<Rightarrow> Worker" where
  "succeedingWorker text = exampleWorker [Parsed (MessageEnd (Some (assistantMessage text None)))] 0"

text \<open>A worker that writes nothing and exits with code 1.\<close>

definition failingWorker :: Worker where
  "failingWorker = exampleWorker [] 1"

text \<open>
  Notions for the fail-fast policy of a parallel step. An event of the trace is a failure
  when it is the settlement of a task whose result slot holds a non-zero exit code; a task
  has a failure before it when such an event precedes the call of its callback.
\<close>

definition settledWithFailure :: "SingleResult option list \<Rightarrow> PoolEvent \<Rightarrow> bool" where
  "settledWithFailure slots e =
     (case e of
        Called j \<Rightarrow> False
      | Done j \<Rightarrow> (case nthOpt slots j of Some (Some r) \<Rightarrow> r_exitCode r \<noteq> 0 | Some None \<Rightarrow> False | None \<Rightarrow> False))"

definition failedBefore :: "SingleResult option list \<Rightarrow> PoolEvent list \<Rightarrow> nat \<Rightarrow> bool" where
  "failedBefore slots tr i = list_ex (settledWithFailure slots) (takeWhile (\<lambda>e. e \<noteq> Called i) tr)"

definition spawnOf ::
  "Environment \<Rightarrow> ParallelContext \<Rightarrow> ParallelTaskItem list \<Rightarrow> string list \<Rightarrow> nat \<Rightarrow> Effect" where
  "spawnOf env pc tasks parallelTemplates i =
     Spawn (pc_globalTaskIndex pc + i) (st_agent (tasks ! i)) (parallelTask env pc parallelTemplates i)"

text \<open>
  The invariant of the pool of a parallel step: which tasks have been called, which are in
  flight, what the filled slots hold, when the flag \<^verbatim>\<open>aborted\<close> is set and which workers
  have been spawned.
\<close>

definition parallelInv ::
  "Environment \<Rightarrow> ParallelContext \<Rightarrow> ParallelTaskItem list \<Rightarrow> string list \<Rightarrow> Effect list
     \<Rightarrow> (ParallelShared, SingleResult, ParallelTaskItem \<times> nat) Pool \<Rightarrow> bool" where
  "parallelInv env pc tasks parallelTemplates log0 pl =
     (pl_next pl \<le> length tasks \<and> length (pl_results pl) = length tasks
      \<and> distinct (map fst (pl_flight pl))
      \<and> (\<forall>e \<in> set (pl_flight pl).
            fst e < pl_next pl \<and> snd e = (tasks ! fst e, fst e) \<and> Done (fst e) \<notin> set (pl_trace pl)
            \<and> \<not> (pc_failFast pc \<and> failedBefore (pl_results pl) (pl_trace pl) (fst e)))
      \<and> (\<forall>j. (Called j \<in> set (pl_trace pl)) = (j < pl_next pl))
      \<and> (\<forall>j. Done j \<in> set (pl_trace pl) \<longrightarrow> j < pl_next pl \<and> j \<notin> fst ` set (pl_flight pl))
      \<and> (\<forall>j < pl_next pl. j \<notin> fst ` set (pl_flight pl) \<longrightarrow>
            Done j \<in> set (pl_trace pl)
            \<and> pl_results pl ! j =
                Some (if pc_failFast pc \<and> failedBefore (pl_results pl) (pl_trace pl) j
                      then skippedResult (tasks ! j)
                      else parallelTaskResult env pc (tasks ! j) j))
      \<and> sh_aborted (pl_shared pl)
          = (pc_failFast pc \<and> list_ex (settledWithFailure (pl_results pl)) (pl_trace pl))
      \<and> sh_log (pl_shared pl)
          = log0 @ map (spawnOf env pc tasks parallelTemplates)
              (filter (\<lambda>j. \<not> (pc_failFast pc \<and> failedBefore (pl_results pl) (pl_trace pl) j))
                 [0..<pl_next pl]))"

text \<open>
  An example of a parallel step with \<^verbatim>\<open>failFast\<close>: three tasks of one agent, and workers of
  which the first exits with code 1.
\<close>

definition exampleParallelContext :: ParallelContext where
  "exampleParallelContext =
     \<lparr> pc_agents = [exampleAgent ''worker''], pc_failFast = True,
       pc_templates = Some [''{task}'', ''{task}'', ''{task}''],
       pc_behaviors = replicate 3 \<lparr> rb_output = Disabled, rb_reads = Disabled, rb_progress = False \<rparr>,
       pc_originalTask = Some ''go'', pc_prev = [], pc_chainDir = ''/tmp/pi-chain-runs/run1'',
       pc_globalTaskIndex = 0 \<rparr>"

definition firstFails :: "nat \<Rightarrow> Worker" where
  "firstFails index = (if index = 0 then failingWorker else succeedingWorker ''ok'')"

section \<open>Behaviour resolution\<close>

lemma resolveParallelFrom_nth:
  "resolveParallelFrom tasks agents k j = Inr bs \<Longrightarrow>
     length bs = length tasks \<and>
     (\<forall>i<length tasks. \<exists>c. findAgent agents (st_agent (tasks ! i)) = Some c
        \<and> bs ! i = resolveParallelTask (tasks ! i) c k (j + i))"
proof (induction tasks arbitrary: j bs)
  case Nil
  then show ?case by simp
next
  case (Cons t ts)
  from Cons.prems obtain c bs' where
    c: "findAgent agents (st_agent t) = Some c" and
    r: "resolveParallelFrom ts agents k (Suc j) = Inr bs'" and
    bs: "bs = resolveParallelTask t c k j # bs'"
    by (auto split: option.splits sum.splits)
  from Cons.IH [OF r] have len: "length bs' = length ts" and
    ih: "\<And>i. i < length ts \<Longrightarrow> \<exists>c. findAgent agents (st_agent (ts ! i)) = Some c
        \<and> bs' ! i = resolveParallelTask (ts ! i) c k (Suc j + i)"
    by auto
  show ?case
  proof (intro conjI allI impI)
    show "length bs = length (t # ts)" using len bs by simp
  next
    fix i assume i: "i < length (t # ts)"
    show "\<exists>c. findAgent agents (st_agent ((t # ts) ! i)) = Some c
        \<and> bs ! i = resolveParallelTask ((t # ts) ! i) c k (j + i)"
    proof (cases i)
      case 0
      then show ?thesis using c bs by simp
    next
      case (Suc i')
      then have "i' < length ts" using i by simp
      from ih [OF this] show ?thesis using Suc bs by simp
    qed
  qed
qed

lemma resolveParallelTask_fields:
  "rb_output (resolveParallelTask t c k i) =
     effective (map_option (namespaced (parallelSubdir k i (st_agent t))) (st_output t))
       (case ac_output c of
          None \<Rightarrow> None
        | Some s \<Rightarrow> (if s = [] then None else Some (Enabled (parallelSubdir k i (st_agent t) @ ''/'' @ s))))
       Disabled"
  "rb_reads (resolveParallelTask t c k i) =
     effective (st_reads t) (map_option Enabled (ac_defaultReads c)) Disabled"
  "rb_progress (resolveParallelTask t c k i) =
     effective (st_progress t) (ac_defaultProgress c) False"
  by (auto simp: resolveParallelTask_def effective_def namespaced_def Let_def
      split: option.splits or_false.splits)

text \<open>
  Claim C2, as amended. For a sequential step every field of the resolved behaviour is the
  step's override if one is given (an explicit \<^verbatim>\<open>false\<close> included), else the agent's
  default if it has one, else disabled. For the tasks of a parallel group the same holds for
  \<open>reads\<close> and \<open>progress\<close>; the \<open>output\<close> follows the same precedence, but a relative path
  (of the override or of the non-empty agent default) is placed under the task's
  subdirectory \<^verbatim>\<open>parallel-{stepIndex}/{taskIndex}-{agent}\<close>, and an absolute override or an
  explicit \<^verbatim>\<open>false\<close> is taken as it is.
\<close>

theorem resolved_behavior_precedence:
  "resolveStepBehavior agentConfig stepOverrides =
     \<lparr> rb_output = effective (so_output stepOverrides) (map_option Enabled (ac_output agentConfig)) Disabled,
       rb_reads = effective (so_reads stepOverrides) (map_option Enabled (ac_defaultReads agentConfig)) Disabled,
       rb_progress = effective (so_progress stepOverrides) (ac_defaultProgress agentConfig) False \<rparr>
   \<and> (resolveParallelBehaviors tasks agents stepIndex = Inr bs \<longrightarrow>
        length bs = length tasks \<and>
        (\<forall>i<length tasks. \<exists>c. findAgent agents (st_agent (tasks ! i)) = Some c
           \<and> rb_output (bs ! i) =
               effective
                 (map_option (namespaced (parallelSubdir stepIndex i (st_agent (tasks ! i)))) (st_output (tasks ! i)))
                 (case ac_output c of
                    None \<Rightarrow> None
                  | Some s \<Rightarrow>
                      (if s = [] then None
                       else Some (Enabled (parallelSubdir stepIndex i (st_agent (tasks ! i)) @ ''/'' @ s))))
                 Disabled
           \<and> rb_reads (bs ! i) = effective (st_reads (tasks ! i)) (map_option Enabled (ac_defaultReads c)) Disabled
           \<and> rb_progress (bs ! i) = effective (st_progress (tasks ! i)) (ac_defaultProgress c) False))"
proof (intro conjI impI)
  show "resolveStepBehavior agentConfig stepOverrides =
     \<lparr> rb_output = effective (so_output stepOverrides) (map_option Enabled (ac_output agentConfig)) Disabled,
       rb_reads = effective (so_reads stepOverrides) (map_option Enabled (ac_defaultReads agentConfig)) Disabled,
       rb_progress = effective (so_progress stepOverrides) (ac_defaultProgress agentConfig) False \<rparr>"
    by (auto simp: resolveStepBehavior_def effective_def split: option.splits)
next
  assume r: "resolveParallelBehaviors tasks agents stepIndex = Inr bs"
  then have f: "resolveParallelFrom tasks agents stepIndex 0 = Inr bs"
    by (simp add: resolveParallelBehaviors_def)
  from resolveParallelFrom_nth [OF f] show "length bs = length tasks" by simp
next
  assume r: "resolveParallelBehaviors tasks agents stepIndex = Inr bs"
  then have f: "resolveParallelFrom tasks agents stepIndex 0 = Inr bs"
    by (simp add: resolveParallelBehaviors_def)
  show "\<forall>i<length tasks. \<exists>c. findAgent agents (st_agent (tasks ! i)) = Some c
           \<and> rb_output (bs ! i) =
               effective
                 (map_option (namespaced (parallelSubdir stepIndex i (st_agent (tasks ! i)))) (st_output (tasks ! i)))
                 (case ac_output c of
                    None \<Rightarrow> None
                  | Some s \<Rightarrow>
                      (if s = [] then None
                       else Some (Enabled (parallelSubdir stepIndex i (st_agent (tasks ! i)) @ ''/'' @ s))))
                 Disabled
           \<and> rb_reads (bs ! i) = effective (st_reads (tasks ! i)) (map_option Enabled (ac_defaultReads c)) Disabled
           \<and> rb_progress (bs ! i) = effective (st_progress (tasks ! i)) (ac_defaultProgress c) False"
  proof (intro allI impI)
    fix i assume "i < length tasks"
    with resolveParallelFrom_nth [OF f] obtain c where
      c: "findAgent agents (st_agent (tasks ! i)) = Some c"
      and b: "bs ! i = resolveParallelTask (tasks ! i) c stepIndex i"
      by auto
    show "\<exists>c. findAgent agents (st_agent (tasks ! i)) = Some c
           \<and> rb_output (bs ! i) =
               effective
                 (map_option (namespaced (parallelSubdir stepIndex i (st_agent (tasks ! i)))) (st_output (tasks ! i)))
                 (case ac_output c of
                    None \<Rightarrow> None
                  | Some s \<Rightarrow>
                      (if s = [] then None
                       else Some (Enabled (parallelSubdir stepIndex i (st_agent (tasks ! i)) @ ''/'' @ s))))
                 Disabled
           \<and> rb_reads (bs ! i) = effective (st_reads (tasks ! i)) (map_option Enabled (ac_defaultReads c)) Disabled
           \<and> rb_progress (bs ! i) = effective (st_progress (tasks ! i)) (ac_defaultProgress c) False"
      using c b resolveParallelTask_fields [of "tasks ! i" c stepIndex i] by auto
  qed
qed

text \<open>
  A witness: one task of agent \<open>a\<close> with the absolute output override \<^verbatim>\<open>/tmp/out.md\<close>.
\<close>

theorem resolved_behavior_precedence_witness:
  "resolveParallelBehaviors [exampleTask ''a'' (Some (Enabled ''/tmp/out.md''))] [exampleAgent ''a''] 0
     = Inr [\<lparr> rb_output = Enabled ''/tmp/out.md'', rb_reads = Disabled, rb_progress = False \<rparr>]
   \<and> effective (map_option (namespaced (parallelSubdir 0 0 ''a'')) (Some (Enabled ''/tmp/out.md''))) None Disabled
       = Enabled ''/tmp/out.md''
   \<and> rb_output (resolveStepBehavior (exampleAgent ''a'')
        \<lparr> so_output = Some Disabled, so_reads = None, so_progress = None \<rparr>) = Disabled"
proof -
  have r: "resolveParallelBehaviors [exampleTask ''a'' (Some (Enabled ''/tmp/out.md''))] [exampleAgent ''a''] 0
     = Inr [\<lparr> rb_output = Enabled ''/tmp/out.md'', rb_reads = Disabled, rb_progress = False \<rparr>]"
    by (simp add: resolveParallelBehaviors_def findAgent_def resolveParallelTask_def exampleTask_def
        exampleAgent_def isAbsolute_def Let_def)
  note t = resolved_behavior_precedence
    [of "exampleAgent ''a''" "\<lparr> so_output = Some Disabled, so_reads = None, so_progress = None \<rparr>"
        "[exampleTask ''a'' (Some (Enabled ''/tmp/out.md''))]" "[exampleAgent ''a'']" 0
        "[\<lparr> rb_output = Enabled ''/tmp/out.md'', rb_reads = Disabled, rb_progress = False \<rparr>]"]
  from t have s: "rb_output (resolveStepBehavior (exampleAgent ''a'')
        \<lparr> so_output = Some Disabled, so_reads = None, so_progress = None \<rparr>) = Disabled"
    by (simp add: effective_def)
  from t r have "effective (map_option (namespaced (parallelSubdir 0 0 ''a'')) (Some (Enabled ''/tmp/out.md''))) None Disabled
       = Enabled ''/tmp/out.md''"
    by (simp add: exampleTask_def exampleAgent_def findAgent_def)
  with r s show ?thesis by simp
qed

text \<open>
  The claim as stated fails for a task of a parallel group: the relative output override
  \<^verbatim>\<open>out.md\<close> of task 0 of step 0 resolves to \<^verbatim>\<open>parallel-0/0-a/out.md\<close>, not to the
  override.
\<close>

theorem resolved_behavior_counterexample:
  "resolveParallelBehaviors [exampleTask ''a'' (Some (Enabled ''out.md''))] [exampleAgent ''a''] 0
     = Inr [\<lparr> rb_output = Enabled ''parallel-0/0-a/out.md'', rb_reads = Disabled, rb_progress = False \<rparr>]
   \<and> Enabled ''parallel-0/0-a/out.md''
       \<noteq> effective (st_output (exampleTask ''a'' (Some (Enabled ''out.md''))))
           (map_option Enabled (ac_output (exampleAgent ''a''))) Disabled"
  by (simp add: resolveParallelBehaviors_def findAgent_def resolveParallelTask_def exampleTask_def
      exampleAgent_def isAbsolute_def parallelSubdir_def show_nat.simps digit_char_def effective_def Let_def)

section \<open>Aggregation of parallel outputs\<close>

lemma enumerate_Nil_iff: "(enumerate n xs = []) = (xs = [])"
  by (cases xs) auto

lemma join_snoc: "join sep (xs @ [x]) = (if xs = [] then x else join sep xs @ sep @ x)"
  by (induction sep xs rule: join.induct) auto

text \<open>
  Claim C7. The aggregation of no task is the empty text, and each further task, in the
  order of the list, adds a blank line (unless it is the first), its header
  \<^verbatim>\<open>=== Parallel Task {n} ({agent}) ===\<close> with \<open>n\<close> its position counted from 1, a
  newline and its section: the output, after the marker of a failed or empty task. For
  scenario E the text has the header of task 1, and the section of task 2 is the failure
  marker naming \<^verbatim>\<open>timeout\<close>. The function of settings.ts, which gives the next step its
  \<^verbatim>\<open>{previous}\<close>, adds header and output in the same order.
\<close>

theorem aggregate_in_task_order:
  "aggregateParallelOutputs_utils [] = []
   \<and> aggregateParallelOutputs_utils (rs @ [r]) =
       (if rs = [] then [] else aggregateParallelOutputs_utils rs @ NL @ NL)
         @ ''=== Parallel Task '' @ show_nat (length rs + 1) @ '' ('' @ to_agent r @ '') ===''
         @ NL @ taskSection r
   \<and> aggregateParallelOutputs_utils scenarioE =
       ''=== Parallel Task 1 (a) ==='' @ NL @ ''ok'' @ NL @ NL
         @ ''=== Parallel Task 2 (b) ==='' @ NL @ WARNING_SIGN @ '' FAILED (exit code 1): timeout''
   \<and> js_includes (aggregateParallelOutputs_utils scenarioE) ''=== Parallel Task 1 (a) ===''
   \<and> js_includes (taskSection (last scenarioE)) ''FAILED (exit code 1): timeout''
   \<and> aggregateParallelOutputs [] = []
   \<and> aggregateParallelOutputs (ps @ [p]) =
       (if ps = [] then [] else aggregateParallelOutputs ps @ NL @ NL)
         @ ''=== Parallel Task '' @ show_nat (length ps + 1) @ '' ('' @ ptr_agent p @ '') ===''
         @ NL @ ptr_output p"
proof (intro conjI)
  show "aggregateParallelOutputs_utils [] = []"
    by (simp add: aggregateParallelOutputs_utils_def)
  show "aggregateParallelOutputs_utils (rs @ [r]) =
       (if rs = [] then [] else aggregateParallelOutputs_utils rs @ NL @ NL)
         @ ''=== Parallel Task '' @ show_nat (length rs + 1) @ '' ('' @ to_agent r @ '') ===''
         @ NL @ taskSection r"
    by (simp add: aggregateParallelOutputs_utils_def enumerate_append_eq join_snoc enumerate_Nil_iff
        parallelHeader_def)
  show "aggregateParallelOutputs_utils scenarioE =
       ''=== Parallel Task 1 (a) ==='' @ NL @ ''ok'' @ NL @ NL
         @ ''=== Parallel Task 2 (b) ==='' @ NL @ WARNING_SIGN @ '' FAILED (exit code 1): timeout''"
    by (simp add: aggregateParallelOutputs_utils_def scenarioE_def parallelHeader_def show_nat.simps
        digit_char_def taskSection_def failureMarker_def show_int_def truthy_def js_trim_def
        js_space_def WARNING_SIGN_def Let_def)
  show "js_includes (aggregateParallelOutputs_utils scenarioE) ''=== Parallel Task 1 (a) ===''"
    by (simp add: aggregateParallelOutputs_utils_def scenarioE_def parallelHeader_def show_nat.simps
        digit_char_def)
  show "js_includes (taskSection (last scenarioE)) ''FAILED (exit code 1): timeout''"
    by (simp add: scenarioE_def taskSection_def failureMarker_def show_int_def show_nat.simps
        digit_char_def truthy_def js_trim_def js_space_def WARNING_SIGN_def Let_def)
  show "aggregateParallelOutputs [] = []"
    by (simp add: aggregateParallelOutputs_def)
  show "aggregateParallelOutputs (ps @ [p]) =
       (if ps = [] then [] else aggregateParallelOutputs ps @ NL @ NL)
         @ ''=== Parallel Task '' @ show_nat (length ps + 1) @ '' ('' @ ptr_agent p @ '') ===''
         @ NL @ ptr_output p"
    by (simp add: aggregateParallelOutputs_def enumerate_append_eq join_snoc enumerate_Nil_iff
        parallelHeader_def)
qed

text \<open>The second step of scenario E: the section of task b follows the text of task a.\<close>

theorem aggregate_in_task_order_witness:
  "aggregateParallelOutputs_utils ([hd scenarioE] @ [last scenarioE]) =
     (aggregateParallelOutputs_utils [hd scenarioE] @ NL @ NL)
       @ ''=== Parallel Task 2 (b) ==='' @ NL @ WARNING_SIGN @ '' FAILED (exit code 1): timeout''"
  using aggregate_in_task_order [of "[hd scenarioE]" "last scenarioE"]
  by (simp add: scenarioE_def show_nat.simps digit_char_def taskSection_def failureMarker_def
      show_int_def truthy_def js_trim_def js_space_def Let_def)

section \<open>The worker process runner\<close>

lemma keep_last_le: "length (if length xs > n then drop (length xs - n) xs else xs) \<le> n"
  by (cases "length xs > n") simp_all

lemma pushRecentOutput_le: "length (pushRecentOutput ls ro) \<le> 50"
  unfolding pushRecentOutput_def Let_def by (rule keep_last_le)

lemma processEvent_rings:
  "ringsBounded (rs_progress st) \<Longrightarrow> ringsBounded (rs_progress (processEvent e st))"
  by (cases "(e, st)" rule: processEvent.cases)
     (auto simp: ringsBounded_def onToolExecutionStart_def onToolExecutionEnd_def onMessageEnd_def
        onToolResultEnd_def Let_def pushRecentOutput_le)

lemma processLine_rings:
  "ringsBounded (rs_progress st) \<Longrightarrow> ringsBounded (rs_progress (processLine st l))"
  by (cases l) (auto simp: processEvent_rings)

lemma foldl_processLine_rings:
  "ringsBounded (rs_progress st) \<Longrightarrow> ringsBounded (rs_progress (foldl processLine st ls))"
  by (induction ls arbitrary: st) (auto simp: processLine_rings)

lemma initialRunState_rings:
  "ringsBounded (rs_progress (initialRunState agent agentName task options))"
  by (simp add: ringsBounded_def initialRunState_def initialProgress_def Let_def)

lemma runProcess_progress:
  "rs_progress (snd (runProcess world st)) = rs_progress (foldl processLine st (w_lines world))"
  by (auto simp: runProcess_def onClose_def Let_def split: ProcExit.splits)

lemma finishRun_progress:
  "\<exists>p. r_progress (finishRun c st) = Some p
     \<and> p_recentTools p = p_recentTools (rs_progress st)
     \<and> p_recentOutput p = p_recentOutput (rs_progress st)"
  by (simp add: finishRun_def Let_def)

text \<open>
  Claim C8. Whatever lines the worker writes, after each of them the ring of recent tools
  holds at most 5 entries and the ring of recent output at most 50 lines, and so does the
  progress record of the final result.
\<close>

theorem rings_never_exceed_caps:
  "length (p_recentTools (rs_progress (foldl processLine (initialRunState agent agentName task options) lines))) \<le> 5
   \<and> length (p_recentOutput (rs_progress (foldl processLine (initialRunState agent agentName task options) lines))) \<le> 50
   \<and> (case r_progress (runWorker agent agentName task options world) of
        None \<Rightarrow> False
      | Some p \<Rightarrow> length (p_recentTools p) \<le> 5 \<and> length (p_recentOutput p) \<le> 50)"
proof -
  have a: "ringsBounded (rs_progress (foldl processLine (initialRunState agent agentName task options) ls))" for ls
    by (rule foldl_processLine_rings [OF initialRunState_rings])
  obtain p where p: "r_progress (runWorker agent agentName task options world) = Some p"
    and "p_recentTools p = p_recentTools (rs_progress (snd (runProcess world (initialRunState agent agentName task options))))"
    and "p_recentOutput p = p_recentOutput (rs_progress (snd (runProcess world (initialRunState agent agentName task options))))"
    using finishRun_progress unfolding runWorker_def Let_def by blast
  then have "ringsBounded p"
    using a [of "w_lines world"] by (simp add: ringsBounded_def runProcess_progress)
  with p a [of lines] show ?thesis by (simp add: ringsBounded_def)
qed

text \<open>A witness: seven tool executions in a row leave five entries in the ring.\<close>

theorem rings_never_exceed_caps_witness:
  "length (p_recentTools (rs_progress (foldl processLine
      (initialRunState (exampleAgent ''w'') ''w'' ''t'' exampleOptions)
      (concat (replicate 7 [Parsed (ToolExecutionStart (Some ''bash'') ''ls''), Parsed ToolExecutionEnd]))))) = 5"
proof -
  have "length (p_recentTools (rs_progress (foldl processLine
      (initialRunState (exampleAgent ''w'') ''w'' ''t'' exampleOptions)
      (concat (replicate 7 [Parsed (ToolExecutionStart (Some ''bash'') ''ls''), Parsed ToolExecutionEnd]))))) \<le> 5"
    using rings_never_exceed_caps [of "exampleAgent ''w''" "''w''" "''t''" exampleOptions] by blast
  moreover have "length (p_recentTools (rs_progress (foldl processLine
      (initialRunState (exampleAgent ''w'') ''w'' ''t'' exampleOptions)
      (concat (replicate 7 [Parsed (ToolExecutionStart (Some ''bash'') ''ls''), Parsed ToolExecutionEnd]))))) \<ge> 5"
    by (simp add: numeral_eq_Suc initialRunState_def initialProgress_def onToolExecutionStart_def
        onToolExecutionEnd_def truthy_def Let_def)
  ultimately show ?thesis by simp
qed

lemma findAgent_None: "agentName \<notin> set (map ac_name agents) \<Longrightarrow> findAgent agents agentName = None"
  by (auto simp: findAgent_def find_None_iff)

text \<open>
  Claim C10. When no agent of the list has the given name, \<^verbatim>\<open>runSync\<close> returns a result
  (it raises nothing, whatever the environment would do) with exit code 1, no messages,
  all usage totals zero and the error text \<^verbatim>\<open>Unknown agent: <name>\<close>.
\<close>

theorem runSync_unknown_agent:
  "agentName \<notin> set (map ac_name agents) \<Longrightarrow>
   runSync agents agentName task options world =
     Inr \<lparr> r_agent = agentName, r_task = task, r_exitCode = 1, r_messages = [],
           r_usage = \<lparr> u_input = 0, u_output = 0, u_cacheRead = 0, u_cacheWrite = 0, u_cost = 0, u_turns = 0 \<rparr>,
           r_model = None, r_error = Some (''Unknown agent: '' @ agentName), r_progress = None \<rparr>"
  by (simp add: runSync_def findAgent_None unknownAgentResult_def zeroUsage_def)

theorem runSync_unknown_agent_witness:
  "''ghost'' \<notin> set (map ac_name [exampleAgent ''scout''])
   \<and> runSync [exampleAgent ''scout''] ''ghost'' ''Do it'' exampleOptions
        \<lparr> w_setupError = Some ''disk full'', w_lines = [], w_stderr = [], w_exit = SpawnError \<rparr> =
     Inr \<lparr> r_agent = ''ghost'', r_task = ''Do it'', r_exitCode = 1, r_messages = [],
           r_usage = \<lparr> u_input = 0, u_output = 0, u_cacheRead = 0, u_cacheWrite = 0, u_cost = 0, u_turns = 0 \<rparr>,
           r_model = None, r_error = Some ''Unknown agent: ghost'', r_progress = None \<rparr>"
proof -
  have h: "''ghost'' \<notin> set (map ac_name [exampleAgent ''scout''])"
    by (simp add: exampleAgent_def)
  from runSync_unknown_agent [OF h, of "''Do it''" exampleOptions
      "\<lparr> w_setupError = Some ''disk full'', w_lines = [], w_stderr = [], w_exit = SpawnError \<rparr>"] h
  show ?thesis by simp
qed

subsection \<open>Hidden failures\<close>

lemma processLine_slot:
  "rs_lastToolError (processLine st l) =
     (case toolResultOf l of
        None \<Rightarrow> rs_lastToolError st
      | Some (msg, evtToolName) \<Rightarrow>
          (if reportsFailure msg evtToolName then Some (reportedError msg evtToolName) else None))"
proof (cases l)
  case (Parsed evt)
  show ?thesis
  proof (cases evt)
    case (ToolResultEnd m evtToolName)
    then show ?thesis using Parsed
      by (cases m)
         (auto simp: onToolResultEnd_def reportsFailure_def reportedError_def reportedExitCode_def
            resultToolName_def Let_def split: option.splits)
  next
    case (MessageEnd m)
    then show ?thesis using Parsed
      by (cases m) (auto simp: onMessageEnd_def Let_def)
  qed (use Parsed in \<open>auto simp: onToolExecutionStart_def onToolExecutionEnd_def Let_def\<close>)
qed simp_all

lemma foldl_processLine_slot:
  "rs_lastToolError (foldl processLine st ls) =
     (case lastToolResult ls of
        None \<Rightarrow> rs_lastToolError st
      | Some (msg, evtToolName) \<Rightarrow>
          (if reportsFailure msg evtToolName then Some (reportedError msg evtToolName) else None))"
proof (induction ls arbitrary: st)
  case Nil
  then show ?case by simp
next
  case (Cons l ls)
  show ?case
    by (simp add: Cons.IH processLine_slot split: option.splits)
qed

lemma processLine_error:
  "\<not> recordsErrorMessage l \<Longrightarrow> r_error (rs_result (processLine st l)) = r_error (rs_result st)"
proof (cases l)
  case (Parsed evt)
  assume quiet: "\<not> recordsErrorMessage l"
  show ?thesis
  proof (cases evt)
    case (ToolResultEnd m evtToolName)
    then show ?thesis using Parsed
      by (cases m) (auto simp: onToolResultEnd_def Let_def)
  next
    case (MessageEnd m)
    then show ?thesis using Parsed quiet
      by (cases m) (auto simp: onMessageEnd_def Let_def)
  qed (use Parsed in \<open>auto simp: onToolExecutionStart_def onToolExecutionEnd_def Let_def\<close>)
qed simp_all

lemma foldl_processLine_error:
  "\<not> list_ex recordsErrorMessage ls \<Longrightarrow>
     r_error (rs_result (foldl processLine st ls)) = r_error (rs_result st)"
  by (induction ls arbitrary: st) (simp_all add: processLine_error)

text \<open>
  Claim C3, as amended. The worker exits with code 0 and no \<^verbatim>\<open>message_end\<close> event has
  recorded an error message. When the last tool result of the run reports a failure (it is
  marked as an error, or it is a \<^verbatim>\<open>bash\<close> result whose text gives a non-zero exit code; no
  successful tool result follows it), the final result has the exit code that tool result
  reports, a non-zero one, and an error text made of the tool's name, that exit code and
  the head of the tool's text. The result marked as an error whose text gives the exit
  code 0 is left out. When the last tool result is a successful one, the slot has been
  cleared: the exit code is 0 and there is no error text.
\<close>

theorem hidden_failure_promoted:
  assumes agent: "findAgent agents agentName = Some agent" and spawned: "w_setupError world = None"
    and exit0: "w_exit world = Close (Some 0)"
    and quiet: "\<not> list_ex recordsErrorMessage (w_lines world)"
    and last: "lastToolResult (w_lines world) = Some (msg, evtToolName)"
  shows "\<exists>r. runSync agents agentName task options world = Inr r
     \<and> (reportsFailure msg evtToolName \<and> reportedExitCode msg evtToolName \<noteq> 0 \<longrightarrow>
          r_exitCode r = reportedExitCode msg evtToolName \<and> r_exitCode r \<noteq> 0
          \<and> r_error r = Some (toolErrorText (reportedError msg evtToolName)
                                (reportedExitCode msg evtToolName)))
     \<and> (\<not> reportsFailure msg evtToolName \<longrightarrow> r_exitCode r = 0 \<and> r_error r = None)"
proof -
  let ?init = "initialRunState agent agentName task options"
  let ?st = "foldl processLine ?init (w_lines world)"
  have slot: "rs_lastToolError ?st
      = (if reportsFailure msg evtToolName then Some (reportedError msg evtToolName) else None)"
    by (simp add: foldl_processLine_slot last)
  have err: "r_error (rs_result ?st) = None"
    using foldl_processLine_error [OF quiet, of ?init] by (simp add: initialRunState_def Let_def)
  have run: "runSync agents agentName task options world = Inr (finishRun 0 ?st)"
    using agent spawned exit0
    by (simp add: runSync_def runWorker_def runProcess_def onClose_def Let_def)
  have code: "te_exitCode (reportedError msg evtToolName) = Some (reportedExitCode msg evtToolName)"
    by (simp add: reportedError_def)
  show ?thesis
    unfolding run using slot err code
    by (auto simp: finishRun_def truthy_def Let_def)
qed

text \<open>
  Scenario F: the worker's only event is a tool result of \<^verbatim>\<open>write\<close> marked as an error,
  and the process exits with code 0. A \<^verbatim>\<open>bash\<close> result that is not marked but whose text
  gives the exit code 2 yields that code. A successful tool result after the failure clears
  it.
\<close>

theorem hidden_failure_promoted_witness:
  "(\<exists>r. runSync [exampleAgent ''w''] ''w'' ''t'' exampleOptions
          (exampleWorker
            [Parsed (ToolResultEnd (Some (toolResultMessage ''write'' ''Permission denied'' True)) None)] 0)
        = Inr r
      \<and> r_exitCode r = 1 \<and> r_error r = Some ''write failed (exit 1): Permission denied'')
   \<and> (\<exists>r. runSync [exampleAgent ''w''] ''w'' ''t'' exampleOptions
          (exampleWorker
            [Parsed (ToolResultEnd (Some (toolResultMessage ''bash'' ''exit code 2'' False)) None),
             Parsed ToolExecutionEnd] 0)
        = Inr r
      \<and> r_exitCode r = 2 \<and> r_error r = Some ''bash failed (exit 2): exit code 2'')
   \<and> (\<exists>r. runSync [exampleAgent ''w''] ''w'' ''t'' exampleOptions
          (exampleWorker
            [Parsed (ToolResultEnd (Some (toolResultMessage ''write'' ''Permission denied'' True)) None),
             Parsed (ToolResultEnd (Some (toolResultMessage ''write'' ''done'' False)) None)] 0)
        = Inr r
      \<and> r_exitCode r = 0 \<and> r_error r = None)"
proof -
  note defs = findAgent_def exampleAgent_def exampleWorker_def toolResultMessage_def
    reportsFailure_def reportedExitCode_def reportedError_def resultToolName_def toolErrorText_def
    truthy_def show_int_def show_nat.simps digit_char_def
  note exit_defs = parseExitCode_def match_exit_at_def lower_def is_digit_def parse_decimal_def
    digit_value_def toDouble_def js_space_def Let_def
  let ?f = "Parsed (ToolResultEnd (Some (toolResultMessage ''write'' ''Permission denied'' True)) None)"
  let ?b = "Parsed (ToolResultEnd (Some (toolResultMessage ''bash'' ''exit code 2'' False)) None)"
  let ?s = "Parsed (ToolResultEnd (Some (toolResultMessage ''write'' ''done'' False)) None)"
  have code2: "parseExitCode ''exit code 2'' = Some 2"
    by (simp add: exit_defs)
  have a: "\<exists>r. runSync [exampleAgent ''w''] ''w'' ''t'' exampleOptions (exampleWorker [?f] 0) = Inr r
      \<and> r_exitCode r = 1 \<and> r_error r = Some ''write failed (exit 1): Permission denied''"
    using hidden_failure_promoted [of "[exampleAgent ''w'']" "''w''" "exampleAgent ''w''"
        "exampleWorker [?f] 0" "toolResultMessage ''write'' ''Permission denied'' True" None "''t''"
        exampleOptions]
    by (auto simp: defs)
  have b: "\<exists>r. runSync [exampleAgent ''w''] ''w'' ''t'' exampleOptions
          (exampleWorker [?b, Parsed ToolExecutionEnd] 0) = Inr r
      \<and> r_exitCode r = 2 \<and> r_error r = Some ''bash failed (exit 2): exit code 2''"
    using hidden_failure_promoted [of "[exampleAgent ''w'']" "''w''" "exampleAgent ''w''"
        "exampleWorker [?b, Parsed ToolExecutionEnd] 0" "toolResultMessage ''bash'' ''exit code 2'' False"
        None "''t''" exampleOptions] code2
    by (auto simp: defs)
  have c: "\<exists>r. runSync [exampleAgent ''w''] ''w'' ''t'' exampleOptions (exampleWorker [?f, ?s] 0) = Inr r
      \<and> r_exitCode r = 0 \<and> r_error r = None"
    using hidden_failure_promoted [of "[exampleAgent ''w'']" "''w''" "exampleAgent ''w''"
        "exampleWorker [?f, ?s] 0" "toolResultMessage ''write'' ''done'' False" None "''t''"
        exampleOptions]
    by (auto simp: defs)
  from a b c show ?thesis by blast
qed

text \<open>
  The claim as stated fails when an error message is recorded: the last tool result is
  marked as an error and no successful one follows, so the slot is filled when the process
  exits with code 0; but an assistant message has carried an error message, which fills
  \<^verbatim>\<open>result.error\<close>, and the final exit code is 0.
\<close>

theorem hidden_failure_counterexample:
  "lastToolResult
      [Parsed (ToolResultEnd (Some (toolResultMessage ''write'' ''Permission denied'' True)) None),
       Parsed (MessageEnd (Some (assistantMessage [] (Some ''rate limited''))))]
     = Some (toolResultMessage ''write'' ''Permission denied'' True, None)
   \<and> reportsFailure (toolResultMessage ''write'' ''Permission denied'' True) None
   \<and> rs_lastToolError (foldl processLine (initialRunState (exampleAgent ''w'') ''w'' ''t'' exampleOptions)
      [Parsed (ToolResultEnd (Some (toolResultMessage ''write'' ''Permission denied'' True)) None),
       Parsed (MessageEnd (Some (assistantMessage [] (Some ''rate limited''))))])
     = Some \<lparr> te_toolName = ''write'', te_exitCode = Some 1, te_details = Some ''Permission denied'' \<rparr>
   \<and> map_sum id r_exitCode (runSync [exampleAgent ''w''] ''w'' ''t'' exampleOptions
       (exampleWorker
         [Parsed (ToolResultEnd (Some (toolResultMessage ''write'' ''Permission denied'' True)) None),
          Parsed (MessageEnd (Some (assistantMessage [] (Some ''rate limited''))))] 0)) = Inr 0"
  by (simp add: runSync_def findAgent_def exampleAgent_def runWorker_def runProcess_def
      exampleWorker_def onClose_def finishRun_def toolErrorText_def truthy_def Let_def
      initialRunState_def exampleOptions_def applyThinkingSuffix_def initialProgress_def
      onToolResultEnd_def onMessageEnd_def toolResultMessage_def assistantMessage_def
      pushMessage_def MAX_STORED_MESSAGES_def pushRecentOutput_def tailLines_def MAX_TAIL_CHARS_def
      js_trim_def js_space_def NL_def addUsage_def zeroUsage_def reportsFailure_def)

text \<open>
  The case the theorem leaves out: a \<^verbatim>\<open>bash\<close> result marked as an error whose text gives
  the exit code 0 fills the slot with that code, and the final result has an error text but
  the exit code 0.
\<close>

lemma error_marked_bash_exit_zero:
  "\<exists>r. runSync [exampleAgent ''w''] ''w'' ''t'' exampleOptions
          (exampleWorker
            [Parsed (ToolResultEnd (Some (toolResultMessage ''bash'' ''exit code 0'' True)) None)] 0)
        = Inr r
      \<and> r_exitCode r = 0 \<and> r_error r = Some ''bash failed (exit 0): exit code 0''"
  by (simp add: runSync_def findAgent_def exampleAgent_def runWorker_def runProcess_def
      exampleWorker_def onClose_def finishRun_def toolErrorText_def truthy_def Let_def
      initialRunState_def exampleOptions_def applyThinkingSuffix_def initialProgress_def
      onToolResultEnd_def toolResultMessage_def show_int_def show_nat.simps digit_char_def
      pushMessage_def MAX_STORED_MESSAGES_def pushRecentOutput_def tailLines_def MAX_TAIL_CHARS_def
      js_trim_def js_space_def NL_def zeroUsage_def
      parseExitCode_def match_exit_at_def lower_def is_digit_def parse_decimal_def
      digit_value_def toDouble_def)


section \<open>The backpressured event writer\<close>

lemma closeWriter_idem: "closeWriter (closeWriter ws) = closeWriter ws"
  by (cases ws; cases "fst ws") (auto simp: closeWriter_def)

lemma closeWriter_funpow: "(closeWriter ^^ Suc n) ws = closeWriter ws"
  by (induction n) (simp_all add: closeWriter_idem)

lemma applyOp_consistent: "writerConsistent ws \<Longrightarrow> writerConsistent (applyOp answers ws op)"
  by (cases op; cases ws; cases "fst ws")
     (auto simp: writerConsistent_def writeLine_def closeWriter_def emitDrain_def Let_def
        split: WriteResult.splits)

lemma runOps_consistent: "writerConsistent ws \<Longrightarrow> writerConsistent (runOps answers ops ws)"
  unfolding runOps_def by (induction ops arbitrary: ws) (auto simp: applyOp_consistent)

lemma applyOp_stream: "\<exists>v'. fst (applyOp answers (StreamWriter v, io) op) = StreamWriter v'"
  by (cases op)
     (auto simp: writeLine_def closeWriter_def emitDrain_def Let_def split: WriteResult.splits)

lemma runOps_stream: "\<exists>v'. fst (runOps answers ops (StreamWriter v, io)) = StreamWriter v'"
  unfolding runOps_def
proof (induction ops arbitrary: v io)
  case Nil
  then show ?case by simp
next
  case (Cons op ops)
  obtain v' where "fst (applyOp answers (StreamWriter v, io) op) = StreamWriter v'"
    using applyOp_stream by blast
  then have "applyOp answers (StreamWriter v, io) op = (StreamWriter v', snd (applyOp answers (StreamWriter v, io) op))"
    by (metis prod.collapse)
  with Cons.IH [of v' "snd (applyOp answers (StreamWriter v, io) op)"] show ?case by simp
qed

lemma closeWriter_ended:
  "writerConsistent ws \<Longrightarrow> fst ws = StreamWriter v \<Longrightarrow> k_ended (snd (closeWriter ws)) = 1"
  by (cases ws) (auto simp: writerConsistent_def closeWriter_def)

lemma applyOp_noop: "applyOp answers (NoOpWriter, io) op = (NoOpWriter, io)"
  by (cases op) (simp_all add: writeLine_def closeWriter_def emitDrain_def)

lemma runOps_noop: "runOps answers ops (NoOpWriter, io) = (NoOpWriter, io)"
  unfolding runOps_def by (induction ops) (simp_all add: applyOp_noop)

text \<open>
  Claim C9. In any state of a writer, closing it two times or more leaves the writer and its
  sink as closing it once does. A writer created with a destination path, whose stream
  opened, has called the sink's \<^verbatim>\<open>end\<close> exactly once after any operations followed by
  one or more calls of \<^verbatim>\<open>close\<close>. A writer created without a destination path leaves the
  sink and the source as they are, whatever lines are written, however often it is closed:
  the source is never paused or resumed.
\<close>

theorem close_idempotent_and_noop:
  "(closeWriter ^^ (n + 2)) ws = closeWriter ws
   \<and> (truthy filePath \<longrightarrow>
        k_ended (snd ((closeWriter ^^ (n + 1))
          (runOps answers ops (createJsonlWriter filePath True, freshSink)))) = 1)
   \<and> (\<not> truthy filePath \<longrightarrow>
        runOps answers ops (createJsonlWriter filePath opens, io) = (NoOpWriter, io))"
proof (intro conjI impI)
  show "(closeWriter ^^ (n + 2)) ws = closeWriter ws"
    using closeWriter_funpow [of "Suc n" ws] by simp
next
  assume t: "truthy filePath"
  let ?v = "\<lparr> wv_stream = True, wv_backpressured = False, wv_closed = False \<rparr>"
  have c: "createJsonlWriter filePath True = StreamWriter ?v"
    using t by (simp add: createJsonlWriter_def)
  have "writerConsistent (StreamWriter ?v, freshSink)"
    by (simp add: writerConsistent_def freshSink_def)
  then have w: "writerConsistent (runOps answers ops (StreamWriter ?v, freshSink))"
    by (rule runOps_consistent)
  obtain v' where "fst (runOps answers ops (StreamWriter ?v, freshSink)) = StreamWriter v'"
    using runOps_stream by blast
  with w have "k_ended (snd (closeWriter (runOps answers ops (StreamWriter ?v, freshSink)))) = 1"
    by (rule closeWriter_ended)
  then show "k_ended (snd ((closeWriter ^^ (n + 1))
          (runOps answers ops (createJsonlWriter filePath True, freshSink)))) = 1"
    using closeWriter_funpow [of n] c by simp
next
  assume "\<not> truthy filePath"
  then show "runOps answers ops (createJsonlWriter filePath opens, io) = (NoOpWriter, io)"
    by (simp add: createJsonlWriter_def runOps_noop)
qed

text \<open>
  A witness: a writer to \<^verbatim>\<open>/tmp/out.jsonl\<close> writes a line that meets backpressure and is
  closed twice; a writer without a path writes the same line and is closed.
\<close>

theorem close_idempotent_and_noop_witness:
  "truthy (Some ''/tmp/out.jsonl'')
   \<and> k_ended (snd ((closeWriter ^^ 2)
        (runOps (\<lambda>n. Backpressure) [WriteLine ''{}''] (createJsonlWriter (Some ''/tmp/out.jsonl'') True, freshSink)))) = 1
   \<and> \<not> truthy None
   \<and> runOps (\<lambda>n. Backpressure) [WriteLine ''{}'', CloseOp] (createJsonlWriter None True, freshSink)
       = (NoOpWriter, freshSink)"
proof -
  have a: "truthy (Some ''/tmp/out.jsonl'')" and b: "\<not> truthy None"
    by (simp_all add: truthy_def)
  from close_idempotent_and_noop [of 1 "(NoOpWriter, freshSink)" "Some ''/tmp/out.jsonl''" "\<lambda>n. Backpressure" "[WriteLine ''{}'']"] a
  have c: "k_ended (snd ((closeWriter ^^ 2)
        (runOps (\<lambda>n. Backpressure) [WriteLine ''{}''] (createJsonlWriter (Some ''/tmp/out.jsonl'') True, freshSink)))) = 1"
    by (simp add: numeral_2_eq_2)
  from close_idempotent_and_noop [of 0 "(NoOpWriter, freshSink)" None "\<lambda>n. Backpressure" "[WriteLine ''{}'', CloseOp]" True freshSink] b
  have "runOps (\<lambda>n. Backpressure) [WriteLine ''{}'', CloseOp] (createJsonlWriter None True, freshSink)
       = (NoOpWriter, freshSink)"
    by simp
  with a b c show ?thesis by simp
qed

section \<open>The parallel task scheduler\<close>

lemma mapLoop_invariant_aux:
  assumes "I pl"
    and "\<forall>pl pl'. I pl \<and> pl_next pl < length items \<and> length (pl_flight pl) < limit \<and>
            poolStart start items pl = Inr pl' \<longrightarrow> I pl'"
    and "\<forall>pl k. I pl \<and> k < length (pl_flight pl) \<longrightarrow> I (poolComplete finish k pl)"
  shows "(case mapLoop sched start finish items limit t pl of
            Finished pl' \<Rightarrow> I pl' \<and> pl_flight pl' = [] \<and> length items \<le> pl_next pl'
          | Rejected e s \<Rightarrow> (\<exists>pl'. I pl' \<and> pl_next pl' < length items \<and> poolStart start items pl' = Inl (e, s))
          | Stuck pl' \<Rightarrow> I pl' \<and> limit = 0)"
  using assms
proof (induction sched start finish items limit t pl rule: mapLoop.induct)
  case (1 sched start finish items limit t pl)
  note I = "1.prems"(1) and st' = "1.prems"(2) and co' = "1.prems"(3)
  show ?case
  proof (cases "pl_next pl < length items \<and> length (pl_flight pl) < limit
         \<and> (pl_flight pl = [] \<or> sched t = StartNext)")
    case True
    show ?thesis
    proof (cases "poolStart start items pl")
      case (Inl thrown)
      then show ?thesis using True I
        by (subst mapLoop.simps) (auto intro!: exI [of _ pl])
    next
      case (Inr pl')
      have Inew: "I pl'" using st' I Inr True by blast
      have eq: "mapLoop sched start finish items limit t pl =
          mapLoop sched start finish items limit (Suc t) pl'"
        by (subst mapLoop.simps) (use True Inr in auto)
      from "1.IH"(1) [OF True Inr Inew st' co'] show ?thesis
        unfolding eq .
    qed
  next
    case False
    show ?thesis
    proof (cases "pl_flight pl \<noteq> []")
      case True
      then have "chosen (sched t) (length (pl_flight pl)) < length (pl_flight pl)"
        by (simp add: chosen_less)
      then have Inew: "I (poolComplete finish (chosen (sched t) (length (pl_flight pl))) pl)"
        using co' I by blast
      have eq: "mapLoop sched start finish items limit t pl =
          mapLoop sched start finish items limit (Suc t)
            (poolComplete finish (chosen (sched t) (length (pl_flight pl))) pl)"
        by (subst mapLoop.simps) (use False True in auto)
      from "1.IH"(2) [OF False True Inew st' co'] show ?thesis
        unfolding eq .
    next
      case f: False
      then show ?thesis using False I
        by (subst mapLoop.simps) auto
    qed
  qed
qed






section \<open>The chain orchestrator\<close>

lemma chainLoop_append:
  "chainLoop env ctx (xs @ ys) st =
     (case chainLoop env ctx xs st of
        Continue st' \<Rightarrow> chainLoop env ctx ys st'
      | Return res effs \<Rightarrow> Return res effs
      | Throw e effs \<Rightarrow> Throw e effs
      | Hang effs \<Rightarrow> Hang effs)"
  by (induction xs arbitrary: st) (auto split: StepEnd.splits)

lemma sequentialStep_Continue:
  assumes "sequentialStep env ctx seqStep st = Continue st'"
  shows "c_stepIndex st' = Suc (c_stepIndex st) \<and> length (c_results st') = Suc (length (c_results st))
     \<and> (\<exists>new. c_log st' = c_log st @ new \<and> \<not> list_ex isRemoveChainDir new)"
  using assms
  by (auto simp: sequentialStep_def Let_def split: option.splits Template.splits sum.splits if_splits)

lemma those_length: "those xs = Some ys \<Longrightarrow> length ys = length xs"
  by (induction xs arbitrary: ys) (auto split: option.splits)

lemma spawnsOnly_start:
  assumes "spawnsOnly log0 n pl" "poolStart (parallelStart env pc) items pl = Inr pl'"
  shows "spawnsOnly log0 n pl'"
  using assms
  by (auto simp: spawnsOnly_def poolStart_def parallelStart_def Let_def
      split: sum.splits Started.splits option.splits if_splits)

lemma spawnsOnly_complete:
  assumes "spawnsOnly log0 n pl"
  shows "spawnsOnly log0 n (poolComplete (parallelFinish env pc) k pl)"
  using assms
  by (auto simp: spawnsOnly_def poolComplete_def parallelFinish_def Let_def)

lemma mapConcurrent_spawnsOnly:
  assumes "mapConcurrent sched (parallelStart env pc) (parallelFinish env pc) items limit
             \<lparr> sh_aborted = False, sh_log = log0 \<rparr> = Resolved slots sh tr"
  shows "length slots = length items \<and> (\<exists>new. sh_log sh = log0 @ new \<and> list_all isSpawn new)"
proof -
  let ?pl0 = "\<lparr> pl_next = 0, pl_flight = [], pl_results = replicate (length items) None,
          pl_shared = \<lparr> sh_aborted = False, sh_log = log0 \<rparr>, pl_trace = [] \<rparr>"
  have i0: "spawnsOnly log0 (length items) ?pl0"
    by (simp add: spawnsOnly_def)
  have st: "\<forall>pl pl'. spawnsOnly log0 (length items) pl \<and> pl_next pl < length items
      \<and> length (pl_flight pl) < limit \<and> poolStart (parallelStart env pc) items pl = Inr pl'
      \<longrightarrow> spawnsOnly log0 (length items) pl'"
    using spawnsOnly_start by blast
  have co: "\<forall>pl k. spawnsOnly log0 (length items) pl \<and> k < length (pl_flight pl)
      \<longrightarrow> spawnsOnly log0 (length items) (poolComplete (parallelFinish env pc) k pl)"
    using spawnsOnly_complete by blast
  note inv = mapLoop_invariant_aux [of "spawnsOnly log0 (length items)" ?pl0 items limit
      "parallelStart env pc" "parallelFinish env pc" sched 0, OF i0 st co]
  from assms obtain pl' where
    f: "mapLoop sched (parallelStart env pc) (parallelFinish env pc) items limit 0 ?pl0 = Finished pl'"
    and s: "slots = pl_results pl'" and h: "sh = pl_shared pl'"
    by (auto simp: mapConcurrent_def split: PoolEnd.splits)
  from inv f have "spawnsOnly log0 (length items) pl'" by simp
  then show ?thesis using s h by (simp add: spawnsOnly_def)
qed

lemma list_all_isSpawn_no_remove: "list_all isSpawn new \<Longrightarrow> \<not> list_ex isRemoveChainDir new"
proof (induction new)
  case Nil
  then show ?case by simp
next
  case (Cons e es)
  then show ?case by (cases e) auto
qed

lemma parallelStep_Continue:
  assumes "parallelStep env ctx step st = Continue st'"
  shows "c_stepIndex st' = Suc (c_stepIndex st)
     \<and> length (c_results st') = length (c_results st) + length (ps_parallel step)
     \<and> (\<exists>new. c_log st' = c_log st @ new \<and> \<not> list_ex isRemoveChainDir new)"
proof -
  let ?log1 = "c_log st @ [CreateParallelDirs (x_chainDir ctx) (c_stepIndex st) (map st_agent (ps_parallel step))]"
  from assms obtain bs where bs: "resolveParallelBehaviors (ps_parallel step) (x_agents ctx) (c_stepIndex st) = Inr bs"
    by (auto simp: parallelStep_def Let_def split: sum.splits)
  let ?cp = "list_ex rb_progress bs \<and> \<not> c_progressCreated st"
  let ?log2 = "if ?cp then ?log1 @ [WriteProgressFile (pathJoin [x_chainDir ctx, ''progress.md''])] else ?log1"
  let ?pc = "parallelContext ctx step bs st"
  let ?limit = "nat (case ps_concurrency step of None \<Rightarrow> e_MAX_CONCURRENCY env | Some c \<Rightarrow> c)"
  from assms bs obtain slots sh tr rs where
    m: "mapConcurrent (e_schedule env (c_stepIndex st)) (parallelStart env ?pc) (parallelFinish env ?pc)
          (ps_parallel step) ?limit \<lparr> sh_aborted = False, sh_log = ?log2 \<rparr> = Resolved slots sh tr"
    and th: "those slots = Some rs"
    and st': "st' = st\<lparr> c_globalTaskIndex := c_globalTaskIndex st + length (ps_parallel step),
                       c_results := c_results st @ rs,
                       c_allProgress := foldl (\<lambda>ps r. pushProgress r ps) (c_allProgress st) rs,
                       c_progressCreated := (c_progressCreated st \<or> ?cp),
                       c_log := sh_log sh,
                       c_prev := aggregateParallelOutputs (parallelTaskResults env rs),
                       c_stepIndex := Suc (c_stepIndex st) \<rparr>"
    by (auto simp: parallelStep_def Let_def split: sum.splits MapEnd.splits option.splits if_splits)
  from mapConcurrent_spawnsOnly [OF m] obtain new where
    len: "length slots = length (ps_parallel step)" and lg: "sh_log sh = ?log2 @ new" and sp: "list_all isSpawn new"
    by blast
  have "length rs = length (ps_parallel step)" using those_length [OF th] len by simp
  moreover have "\<exists>new'. sh_log sh = c_log st @ new' \<and> \<not> list_ex isRemoveChainDir new'"
  proof (cases ?cp)
    case True
    then have "sh_log sh = c_log st @ ([CreateParallelDirs (x_chainDir ctx) (c_stepIndex st) (map st_agent (ps_parallel step)),
        WriteProgressFile (pathJoin [x_chainDir ctx, ''progress.md''])] @ new)"
      using lg by simp
    moreover have "\<not> list_ex isRemoveChainDir ([CreateParallelDirs (x_chainDir ctx) (c_stepIndex st) (map st_agent (ps_parallel step)),
        WriteProgressFile (pathJoin [x_chainDir ctx, ''progress.md''])] @ new)"
      using list_all_isSpawn_no_remove [OF sp] by simp
    ultimately show ?thesis by blast
  next
    case False
    then have "sh_log sh = c_log st @ ([CreateParallelDirs (x_chainDir ctx) (c_stepIndex st) (map st_agent (ps_parallel step))] @ new)"
      using lg by simp
    moreover have "\<not> list_ex isRemoveChainDir ([CreateParallelDirs (x_chainDir ctx) (c_stepIndex st) (map st_agent (ps_parallel step))] @ new)"
      using list_all_isSpawn_no_remove [OF sp] by simp
    ultimately show ?thesis by blast
  qed
  ultimately show ?thesis unfolding st' by simp
qed

lemma chainStep_Continue:
  assumes "chainStep env ctx step st = Continue st'"
  shows "c_stepIndex st' = Suc (c_stepIndex st)
     \<and> length (c_results st') = length (c_results st) + getStepTaskCount step
     \<and> (\<exists>new. c_log st' = c_log st @ new \<and> \<not> list_ex isRemoveChainDir new)"
proof (cases step)
  case (Sequential s)
  with assms sequentialStep_Continue [of env ctx s st st'] show ?thesis by simp
next
  case (Parallel p)
  with assms parallelStep_Continue [of env ctx p st st'] show ?thesis by simp
qed

lemma chainLoop_Continue:
  assumes "chainLoop env ctx steps st = Continue st'"
  shows "c_stepIndex st' = c_stepIndex st + length steps
     \<and> length (c_results st') = length (c_results st) + leafCount steps
     \<and> (\<exists>new. c_log st' = c_log st @ new \<and> \<not> list_ex isRemoveChainDir new)"
  using assms
proof (induction steps arbitrary: st)
  case Nil
  then show ?case by (simp add: leafCount_def)
next
  case (Cons step steps)
  from Cons.prems obtain st1 where s1: "chainStep env ctx step st = Continue st1"
    and rest: "chainLoop env ctx steps st1 = Continue st'"
    by (auto split: StepEnd.splits)
  from chainStep_Continue [OF s1] obtain new1 where
    a: "c_stepIndex st1 = Suc (c_stepIndex st)"
    and b: "length (c_results st1) = length (c_results st) + getStepTaskCount step"
    and c: "c_log st1 = c_log st @ new1" and d: "\<not> list_ex isRemoveChainDir new1"
    by blast
  from Cons.IH [OF rest] obtain new2 where
    a2: "c_stepIndex st' = c_stepIndex st1 + length steps"
    and b2: "length (c_results st') = length (c_results st1) + leafCount steps"
    and c2: "c_log st' = c_log st1 @ new2" and d2: "\<not> list_ex isRemoveChainDir new2"
    by blast
  have "c_log st' = c_log st @ (new1 @ new2)" using c c2 by simp
  moreover have "\<not> list_ex isRemoveChainDir (new1 @ new2)" using d d2 by simp
  ultimately have "\<exists>new. c_log st' = c_log st @ new \<and> \<not> list_ex isRemoveChainDir new" by blast
  then show ?case using a a2 b b2 by (simp add: leafCount_def)
qed

lemma startChain_throws:
  "startChain env params =
     Inl (case originalTaskOf (cp_chain params) of
            Inl e \<Rightarrow> Throw e []
          | Inr originalTask \<Rightarrow>
              Throw (TypeError ''settings is undefined'') [CreateChainDir (createChainDir (cp_runId params))])"
  by (simp add: startChain_def resolveChainTemplates_def Let_def split: sum.splits)

lemma executeChain_throws:
  "executeChain env params =
     (case originalTaskOf (cp_chain params) of
        Inl e \<Rightarrow> Throw e []
      | Inr originalTask \<Rightarrow>
          Throw (TypeError ''settings is undefined'') [CreateChainDir (createChainDir (cp_runId params))])"
  by (simp add: executeChain_def startChain_throws)

lemma createChainDir_run1: "createChainDir ''run1'' = ''/tmp/pi-chain-runs/run1''"
  by (simp add: createChainDir_def CHAIN_RUNS_DIR_def pathJoin_def pathNormalize_def)

lemma initialState_fields:
  "c_stepIndex (initialState d) = 0" "c_results (initialState d) = []"
  "c_log (initialState d) = [CreateChainDir d]"
  by (simp_all add: initialState_def)

lemma runChain_reaches:
  assumes "x_chain ctx = pre @ step # rest"
    and "chainLoop env ctx pre (initialState (x_chainDir ctx)) = Continue st"
    and "chainStep env ctx step st = Return res effs"
  shows "runChain env ctx = Return res effs"
  using assms by (simp add: runChain_def chainLoop_append)

text \<open>The definitions that evaluate a run of the example environment.\<close>

lemmas run_defs =
  runChain_def chainContext_def
  resolveChainTemplatesV2_def createChainDir_run1 initialState_def
  sequentialStep_def sequentialTask_def sequentialOverride_def substitute_def nthOpt_def
  buildChainInstructions_def resolveStepBehavior_def unknownAgentChainResult_def failureResult_def
  completedResult_def pushProgress_def findAgent_def
  runSync_def runWorker_def runProcess_def onClose_def finishRun_def initialRunState_def
  initialProgress_def applyThinkingSuffix_def truthy_def zeroUsage_def toolErrorText_def
  onMessageEnd_def addUsage_def pushMessage_def MAX_STORED_MESSAGES_def pushRecentOutput_def
  tailLines_def MAX_TAIL_CHARS_def MAX_STDERR_CHARS_def js_trim_def js_space_def NL_def
  exampleEnvironment_def exampleParams_def exampleStep_def exampleAgent_def exampleWorker_def
  succeedingWorker_def failingWorker_def assistantMessage_def replaceVar_def Let_def

text \<open>
  What the loop of \<^verbatim>\<open>executeChain\<close> does when the worker of a sequential step ends with a
  non-zero exit code, the steps before it having completed: it returns at once. The result
  is an error, its task results are those of the steps that ran, the failing one last (one
  per leaf task, none for a later step), it reports the index of the failing step, the last
  effect is the spawn of the failing worker, and the chain directory is never removed.
\<close>

lemma loop_halts_on_sequential_failure:
  assumes chain: "x_chain ctx = pre @ Sequential seqStep # rest"
    and before: "chainLoop env ctx pre (initialState (x_chainDir ctx)) = Continue st"
    and agent: "findAgent (x_agents ctx) (st_agent seqStep) = Some agentConfig"
    and template: "nthOpt (x_templates ctx) (length pre) = Some (TSeq stepTemplate)"
    and task: "stepTask = sequentialTask env ctx agentConfig seqStep stepTemplate st"
    and run: "runSync (x_agents ctx) (st_agent seqStep) stepTask
                \<lparr> o_index = Some (c_globalTaskIndex st), o_modelOverride = None \<rparr>
                (e_worker env (c_globalTaskIndex st) (st_agent seqStep) stepTask) = Inr r"
    and failed: "r_exitCode r \<noteq> 0"
  shows "\<exists>res. runChain env ctx
             = Return res (c_log st @ [Spawn (c_globalTaskIndex st) (st_agent seqStep) stepTask])
      \<and> d_results (cr_details res) = c_results st @ [r]
      \<and> length (d_results (cr_details res)) = leafCount pre + 1
      \<and> d_currentStepIndex (cr_details res) = Some (length pre)
      \<and> cr_isError res = Some True
      \<and> \<not> list_ex isRemoveChainDir (c_log st @ [Spawn (c_globalTaskIndex st) (st_agent seqStep) stepTask])"
proof -
  from chainLoop_Continue [OF before] obtain new where
    idx: "c_stepIndex st = length pre" and len: "length (c_results st) = leafCount pre"
    and lg: "c_log st = [CreateChainDir (x_chainDir ctx)] @ new" and nr: "\<not> list_ex isRemoveChainDir new"
    by (auto simp: initialState_fields)
  let ?st1 = "st\<lparr> c_globalTaskIndex := c_globalTaskIndex st + 1,
                  c_results := c_results st @ [r],
                  c_allProgress := pushProgress r (c_allProgress st),
                  c_progressCreated := (c_progressCreated st \<or> rb_progress (resolveStepBehavior agentConfig
                      (sequentialOverride ctx (c_stepIndex st) seqStep))),
                  c_log := c_log st @ [Spawn (c_globalTaskIndex st) (st_agent seqStep) stepTask] \<rparr>"
  let ?res = "failureResult env ctx ?st1 (if truthy (r_error r) then the (r_error r) else ''Chain failed'')"
  have step: "chainStep env ctx (Sequential seqStep) st
      = Return ?res (c_log st @ [Spawn (c_globalTaskIndex st) (st_agent seqStep) stepTask])"
    using agent template run failed
    by (simp add: sequentialStep_def idx Let_def task [symmetric])
  have "runChain env ctx = Return ?res (c_log st @ [Spawn (c_globalTaskIndex st) (st_agent seqStep) stepTask])"
    by (rule runChain_reaches [OF chain before step])
  moreover have "d_results (cr_details ?res) = c_results st @ [r]"
    and "d_currentStepIndex (cr_details ?res) = Some (length pre)"
    and "cr_isError ?res = Some True"
    by (simp_all add: failureResult_def idx)
  moreover have "\<not> list_ex isRemoveChainDir (c_log st @ [Spawn (c_globalTaskIndex st) (st_agent seqStep) stepTask])"
    using lg nr by simp
  ultimately show ?thesis using len by auto
qed

text \<open>
  Claim C6. Scenario C of the specification, a chain of two steps of which the worker of the
  first exits with code 1. The loop of \<^verbatim>\<open>executeChain\<close>, run with the templates of the
  parallel-aware resolution, does what the claim says: one task result, step index 0, an
  error, and the chain directory is still there. But \<^verbatim>\<open>executeChain\<close> does not reach its
  loop: the call \<^verbatim>\<open>resolveChainTemplates(chainSteps)\<close> reads \<^verbatim>\<open>settings.chains\<close> of a
  settings argument that is \<^verbatim>\<open>undefined\<close>. The chain directory has been created, no worker
  is spawned and no result is returned.
\<close>

theorem sequential_failure_not_reached:
  "executeChain (exampleEnvironment (\<lambda>i. failingWorker))
       (exampleParams [exampleStep ''step1'' (Some ''Do first thing''), exampleStep ''step2'' None]
          [exampleAgent ''step1'', exampleAgent ''step2''])
     = Throw (TypeError ''settings is undefined'') [CreateChainDir ''/tmp/pi-chain-runs/run1'']
   \<and> (\<exists>res. runChain (exampleEnvironment (\<lambda>i. failingWorker))
         (chainContext
            (exampleParams [exampleStep ''step1'' (Some ''Do first thing''), exampleStep ''step2'' None]
               [exampleAgent ''step1'', exampleAgent ''step2''])
            (Some ''Do first thing'')
            (resolveChainTemplatesV2 [exampleStep ''step1'' (Some ''Do first thing''), exampleStep ''step2'' None])
            None)
       = Return res [CreateChainDir ''/tmp/pi-chain-runs/run1'', Spawn 0 ''step1'' ''Do first thing'']
     \<and> length (d_results (cr_details res)) = 1
     \<and> d_currentStepIndex (cr_details res) = Some 0
     \<and> cr_isError res = Some True)"
proof -
  let ?env = "exampleEnvironment (\<lambda>i. failingWorker)"
  let ?s1 = "\<lparr> st_agent = ''step1'', st_task = Some ''Do first thing'', st_cwd = None, st_output = None,
               st_reads = None, st_progress = None \<rparr>"
  let ?chain = "[exampleStep ''step1'' (Some ''Do first thing''), exampleStep ''step2'' None]"
  let ?params = "exampleParams ?chain [exampleAgent ''step1'', exampleAgent ''step2'']"
  let ?ctx = "chainContext ?params (Some ''Do first thing'') (resolveChainTemplatesV2 ?chain) None"
  let ?st = "initialState (x_chainDir ?ctx)"
  have thrown: "executeChain ?env ?params
      = Throw (TypeError ''settings is undefined'') [CreateChainDir ''/tmp/pi-chain-runs/run1'']"
    by (simp add: executeChain_throws exampleParams_def exampleStep_def createChainDir_run1)
  have chain: "x_chain ?ctx = [] @ Sequential ?s1 # [exampleStep ''step2'' None]"
    by (simp add: chainContext_def exampleParams_def exampleStep_def)
  have before: "chainLoop ?env ?ctx [] ?st = Continue ?st" by simp
  have agent: "findAgent (x_agents ?ctx) (st_agent ?s1) = Some (exampleAgent ''step1'')"
    by (simp add: chainContext_def exampleParams_def findAgent_def exampleAgent_def)
  have template: "nthOpt (x_templates ?ctx) (length ([] :: ChainStep list)) = Some (TSeq ''Do first thing'')"
    by (simp add: chainContext_def resolveChainTemplatesV2_def exampleStep_def nthOpt_def truthy_def)
  have task: "''Do first thing'' = sequentialTask ?env ?ctx (exampleAgent ''step1'') ?s1 ''Do first thing'' ?st"
    by (simp add: run_defs)
  obtain r where run: "runSync (x_agents ?ctx) (st_agent ?s1) ''Do first thing''
                \<lparr> o_index = Some (c_globalTaskIndex ?st), o_modelOverride = None \<rparr>
                (e_worker ?env (c_globalTaskIndex ?st) (st_agent ?s1) ''Do first thing'') = Inr r"
      and failed: "r_exitCode r \<noteq> 0"
    by (simp add: run_defs)
  from loop_halts_on_sequential_failure [OF chain before agent template task run failed]
  have "\<exists>res. runChain ?env ?ctx
       = Return res [CreateChainDir ''/tmp/pi-chain-runs/run1'', Spawn 0 ''step1'' ''Do first thing'']
     \<and> length (d_results (cr_details res)) = 1
     \<and> d_currentStepIndex (cr_details res) = Some 0
     \<and> cr_isError res = Some True"
    by (auto simp: initialState_def chainContext_def createChainDir_run1 exampleParams_def leafCount_def)
  with thrown show ?thesis by blast
qed




subsection \<open>Fail-fast in a parallel step\<close>

lemma swf_update:
  "Done i \<notin> set xs \<Longrightarrow> list_ex (settledWithFailure (res[i := v])) xs = list_ex (settledWithFailure res) xs"
proof (induction xs)
  case Nil
  then show ?case by simp
next
  case (Cons e es)
  then show ?case
    by (cases e) (auto simp: settledWithFailure_def nthOpt_def)
qed

lemma set_takeWhile_subset: "set (takeWhile P xs) \<subseteq> set xs"
  by (induction xs) auto

lemma failedBefore_stable:
  assumes "Called j \<in> set tr"
  shows "failedBefore res (tr @ new) j = failedBefore res tr j"
  using assms by (simp add: failedBefore_def takeWhile_append1 [of "Called j"])

lemma failedBefore_stable_update:
  assumes "Called j \<in> set tr" and "Done i \<notin> set tr"
  shows "failedBefore (res[i := v]) (tr @ new) j = failedBefore res tr j"
proof -
  have "Done i \<notin> set (takeWhile (\<lambda>e. e \<noteq> Called j) tr)"
    using assms(2) set_takeWhile_subset by fastforce
  then show ?thesis
    using assms(1) by (simp add: failedBefore_def takeWhile_append1 [of "Called j"] swf_update)
qed

lemma failedBefore_new:
  assumes "Called i \<notin> set tr"
  shows "failedBefore res (tr @ Called i # later) i = list_ex (settledWithFailure res) tr"
proof -
  have "\<And>x. x \<in> set tr \<Longrightarrow> x \<noteq> Called i" using assms by auto
  then have "takeWhile (\<lambda>e. e \<noteq> Called i) (tr @ Called i # later) = tr"
    by simp
  then show ?thesis by (simp add: failedBefore_def)
qed

lemma parallelStart_known:
  assumes "pc_templates pc = Some ts" and "length (pc_behaviors pc) = length tasks"
    and "\<forall>t \<in> set tasks. findAgent (pc_agents pc) (st_agent t) \<noteq> None"
    and "\<forall>i < length tasks. w_setupError (e_worker env (pc_globalTaskIndex pc + i) (st_agent (tasks ! i))
            (parallelTask env pc ts i)) = None"
    and "i < length tasks"
  shows "parallelStart env pc (tasks ! i) i sh =
     (if sh_aborted sh \<and> pc_failFast pc then (Inr (Settled (skippedResult (tasks ! i))), sh)
      else (Inr (InFlight (tasks ! i, i)), sh\<lparr> sh_log := sh_log sh @ [spawnOf env pc tasks ts i] \<rparr>))"
proof -
  have "tasks ! i \<in> set tasks" using assms(5) by simp
  then obtain a where "findAgent (pc_agents pc) (st_agent (tasks ! i)) = Some a"
    using assms(3) by auto
  then show ?thesis
    using assms(1,2,4,5) by (simp add: parallelStart_def spawnOf_def Let_def)
qed


lemma parallelInvD:
  assumes "parallelInv env pc tasks ts log0 pl"
  shows "pl_next pl \<le> length tasks"
    and "length (pl_results pl) = length tasks"
    and "distinct (map fst (pl_flight pl))"
    and "\<forall>e \<in> set (pl_flight pl).
            fst e < pl_next pl \<and> snd e = (tasks ! fst e, fst e) \<and> Done (fst e) \<notin> set (pl_trace pl)
            \<and> \<not> (pc_failFast pc \<and> failedBefore (pl_results pl) (pl_trace pl) (fst e))"
    and "\<forall>j. (Called j \<in> set (pl_trace pl)) = (j < pl_next pl)"
    and "\<forall>j. Done j \<in> set (pl_trace pl) \<longrightarrow> j < pl_next pl \<and> j \<notin> fst ` set (pl_flight pl)"
    and "\<forall>j < pl_next pl. j \<notin> fst ` set (pl_flight pl) \<longrightarrow>
            Done j \<in> set (pl_trace pl)
            \<and> pl_results pl ! j =
                Some (if pc_failFast pc \<and> failedBefore (pl_results pl) (pl_trace pl) j
                      then skippedResult (tasks ! j)
                      else parallelTaskResult env pc (tasks ! j) j)"
    and "sh_aborted (pl_shared pl)
          = (pc_failFast pc \<and> list_ex (settledWithFailure (pl_results pl)) (pl_trace pl))"
    and "sh_log (pl_shared pl)
          = log0 @ map (spawnOf env pc tasks ts)
              (filter (\<lambda>j. \<not> (pc_failFast pc \<and> failedBefore (pl_results pl) (pl_trace pl) j))
                 [0..<pl_next pl])"
  using assms unfolding parallelInv_def by - ((elim conjE, assumption)+)

lemma parallelInvI:
  assumes "nx \<le> length tasks"
    and "length res = length tasks"
    and "distinct (map fst fl)"
    and "\<forall>e \<in> set fl.
            fst e < nx \<and> snd e = (tasks ! fst e, fst e) \<and> Done (fst e) \<notin> set tr
            \<and> \<not> (pc_failFast pc \<and> failedBefore res tr (fst e))"
    and "\<forall>j. (Called j \<in> set tr) = (j < nx)"
    and "\<forall>j. Done j \<in> set tr \<longrightarrow> j < nx \<and> j \<notin> fst ` set fl"
    and "\<forall>j < nx. j \<notin> fst ` set fl \<longrightarrow>
            Done j \<in> set tr
            \<and> res ! j =
                Some (if pc_failFast pc \<and> failedBefore res tr j
                      then skippedResult (tasks ! j)
                      else parallelTaskResult env pc (tasks ! j) j)"
    and "sh_aborted sh = (pc_failFast pc \<and> list_ex (settledWithFailure res) tr)"
    and "sh_log sh
          = log0 @ map (spawnOf env pc tasks ts)
              (filter (\<lambda>j. \<not> (pc_failFast pc \<and> failedBefore res tr j)) [0..<nx])"
    and "pl_next pl = nx" and "pl_results pl = res" and "pl_flight pl = fl"
    and "pl_trace pl = tr" and "pl_shared pl = sh"
  shows "parallelInv env pc tasks ts log0 pl"
  unfolding parallelInv_def assms(10-14) by (intro conjI assms(1-9))

lemma parallelInv_start:
  assumes inv: "parallelInv env pc tasks ts log0 pl"
    and h1: "pc_templates pc = Some ts" and h2: "length (pc_behaviors pc) = length tasks"
    and h3: "\<forall>t \<in> set tasks. findAgent (pc_agents pc) (st_agent t) \<noteq> None"
    and h4: "\<forall>i < length tasks. w_setupError (e_worker env (pc_globalTaskIndex pc + i) (st_agent (tasks ! i))
            (parallelTask env pc ts i)) = None"
    and nx: "pl_next pl < length tasks"
    and ps: "poolStart (parallelStart env pc) tasks pl = Inr pl'"
  shows "parallelInv env pc tasks ts log0 pl'"
proof -
  let ?i = "pl_next pl" and ?res = "pl_results pl" and ?tr = "pl_trace pl" and ?fl = "pl_flight pl"
  let ?sh = "pl_shared pl" and ?ff = "pc_failFast pc"
  let ?real = "\<lambda>j. parallelTaskResult env pc (tasks ! j) j"
  note D = parallelInvD [OF inv]
  have A: "length ?res = length tasks" by (rule D(2))
  have B1: "distinct (map fst ?fl)" by (rule D(3))
  have B2: "fst e < ?i \<and> snd e = (tasks ! fst e, fst e) \<and> Done (fst e) \<notin> set ?tr
            \<and> \<not> (?ff \<and> failedBefore ?res ?tr (fst e))" if "e \<in> set ?fl" for e
    using D(4) that by blast
  have C: "(Called j \<in> set ?tr) = (j < ?i)" for j using D(5) by blast
  have Dn: "j < ?i \<and> j \<notin> fst ` set ?fl" if "Done j \<in> set ?tr" for j using D(6) that by blast
  have E: "Done j \<in> set ?tr
            \<and> ?res ! j = Some (if ?ff \<and> failedBefore ?res ?tr j then skippedResult (tasks ! j) else ?real j)"
    if "j < ?i" "j \<notin> fst ` set ?fl" for j
    using D(7) that by blast
  have F: "sh_aborted ?sh = (?ff \<and> list_ex (settledWithFailure ?res) ?tr)" by (rule D(8))
  have G: "sh_log ?sh = log0 @ map (spawnOf env pc tasks ts)
              (filter (\<lambda>j. \<not> (?ff \<and> failedBefore ?res ?tr j)) [0..<?i])" by (rule D(9))
  have notCalled: "Called ?i \<notin> set ?tr" using C [of ?i] by simp
  have notDone: "Done ?i \<notin> set ?tr" using Dn [of ?i] by auto
  have notFl: "?i \<notin> fst ` set ?fl" using B2 by fastforce
  note st = parallelStart_known [OF h1 h2 h3 h4 nx, of ?sh]
  show ?thesis
  proof (cases "sh_aborted ?sh \<and> ?ff")
    case True
    let ?res' = "?res[?i := Some (skippedResult (tasks ! ?i))]"
    let ?tr' = "?tr @ [Called ?i, Done ?i]"
    have pl': "pl' = pl\<lparr> pl_next := Suc ?i, pl_results := ?res', pl_shared := ?sh, pl_trace := ?tr' \<rparr>"
      using ps st True by (simp add: poolStart_def Let_def)
    have stab: "failedBefore ?res' ?tr' j = failedBefore ?res ?tr j" if "j < ?i" for j
      using failedBefore_stable_update [of j ?tr ?i] C [of j] that notDone by simp
    have fbi: "failedBefore ?res' ?tr' ?i"
    proof -
      have "failedBefore ?res' ?tr' ?i = list_ex (settledWithFailure ?res') ?tr"
        using failedBefore_new [OF notCalled, of ?res' "[Done ?i]"] by simp
      also have "\<dots> = list_ex (settledWithFailure ?res) ?tr"
        using swf_update [OF notDone] by simp
      finally show ?thesis using F True by simp
    qed
    have a: "Suc ?i \<le> length tasks" using nx by simp
    have a2: "length ?res' = length tasks" using A by simp
    have b: "\<forall>e \<in> set ?fl. fst e < Suc ?i \<and> snd e = (tasks ! fst e, fst e) \<and> Done (fst e) \<notin> set ?tr'
            \<and> \<not> (?ff \<and> failedBefore ?res' ?tr' (fst e))"
    proof
      fix e assume e: "e \<in> set ?fl"
      from B2 [OF e] have lt: "fst e < ?i" by simp
      have ne: "fst e \<noteq> ?i" using lt by simp
      from B2 [OF e] stab [OF lt] lt ne
      show "fst e < Suc ?i \<and> snd e = (tasks ! fst e, fst e) \<and> Done (fst e) \<notin> set ?tr'
            \<and> \<not> (?ff \<and> failedBefore ?res' ?tr' (fst e))"
        by simp
    qed
    have c: "\<forall>j. (Called j \<in> set ?tr') = (j < Suc ?i)" using C by (simp add: less_Suc_eq) blast
    have d: "\<forall>j. Done j \<in> set ?tr' \<longrightarrow> j < Suc ?i \<and> j \<notin> fst ` set ?fl"
    proof (intro allI impI)
      fix j assume "Done j \<in> set ?tr'"
      then have "Done j \<in> set ?tr \<or> j = ?i" by auto
      then show "j < Suc ?i \<and> j \<notin> fst ` set ?fl"
      proof
        assume "Done j \<in> set ?tr" from Dn [OF this] show ?thesis by simp
      next
        assume "j = ?i" then show ?thesis using notFl by simp
      qed
    qed
    have e: "\<forall>j < Suc ?i. j \<notin> fst ` set ?fl \<longrightarrow> Done j \<in> set ?tr'
            \<and> ?res' ! j = Some (if ?ff \<and> failedBefore ?res' ?tr' j then skippedResult (tasks ! j) else ?real j)"
    proof (intro allI impI)
      fix j assume j: "j < Suc ?i" and nf: "j \<notin> fst ` set ?fl"
      show "Done j \<in> set ?tr'
            \<and> ?res' ! j = Some (if ?ff \<and> failedBefore ?res' ?tr' j then skippedResult (tasks ! j) else ?real j)"
      proof (cases "j = ?i")
        case eq: True
        have "?res' ! ?i = Some (skippedResult (tasks ! ?i))" using nx A by simp
        then show ?thesis using fbi True eq by simp
      next
        case False
        then have lt: "j < ?i" using j by simp
        have "?res' ! j = ?res ! j" using False by simp
        with E [OF lt nf] stab [OF lt] show ?thesis by simp
      qed
    qed
    have f: "sh_aborted ?sh = (?ff \<and> list_ex (settledWithFailure ?res') ?tr')"
    proof -
      have "list_ex (settledWithFailure ?res') ?tr" using swf_update [OF notDone] F True by simp
      then show ?thesis using True by simp
    qed
    have g: "sh_log ?sh = log0 @ map (spawnOf env pc tasks ts)
              (filter (\<lambda>j. \<not> (?ff \<and> failedBefore ?res' ?tr' j)) [0..<Suc ?i])"
    proof -
      have "filter (\<lambda>j. \<not> (?ff \<and> failedBefore ?res' ?tr' j)) [0..<?i]
          = filter (\<lambda>j. \<not> (?ff \<and> failedBefore ?res ?tr j)) [0..<?i]"
        by (rule filter_cong) (simp_all add: stab)
      then show ?thesis using G fbi True by simp
    qed
    show ?thesis
      by (rule parallelInvI [OF a a2 B1 b c d e f g]) (simp_all add: pl')
  next
    case False
    let ?tr' = "?tr @ [Called ?i]"
    let ?fl' = "?fl @ [(?i, (tasks ! ?i, ?i))]"
    let ?sh' = "?sh\<lparr> sh_log := sh_log ?sh @ [spawnOf env pc tasks ts ?i] \<rparr>"
    have pl': "pl' = pl\<lparr> pl_next := Suc ?i, pl_flight := ?fl', pl_shared := ?sh', pl_trace := ?tr' \<rparr>"
      using ps st False by (simp add: poolStart_def Let_def)
    have stab: "failedBefore ?res ?tr' j = failedBefore ?res ?tr j" if "j < ?i" for j
      using failedBefore_stable [of j ?tr] C [of j] that by simp
    have fbi: "\<not> (?ff \<and> failedBefore ?res ?tr' ?i)"
    proof -
      have "failedBefore ?res ?tr' ?i = list_ex (settledWithFailure ?res) ?tr"
        using failedBefore_new [OF notCalled, of ?res "[]"] by simp
      then show ?thesis using F False by blast
    qed
    have a: "Suc ?i \<le> length tasks" using nx by simp
    have b1: "distinct (map fst ?fl')" using B1 notFl by simp
    have b: "\<forall>e \<in> set ?fl'. fst e < Suc ?i \<and> snd e = (tasks ! fst e, fst e) \<and> Done (fst e) \<notin> set ?tr'
            \<and> \<not> (?ff \<and> failedBefore ?res ?tr' (fst e))"
    proof
      fix e assume e: "e \<in> set ?fl'"
      show "fst e < Suc ?i \<and> snd e = (tasks ! fst e, fst e) \<and> Done (fst e) \<notin> set ?tr'
            \<and> \<not> (?ff \<and> failedBefore ?res ?tr' (fst e))"
      proof (cases "e \<in> set ?fl")
        case True
        from B2 [OF True] have lt: "fst e < ?i" by simp
        from B2 [OF True] stab [OF lt] lt show ?thesis by simp
      next
        case False
        then have "e = (?i, (tasks ! ?i, ?i))" using e by simp
        then show ?thesis using fbi notDone by simp
      qed
    qed
    have c: "\<forall>j. (Called j \<in> set ?tr') = (j < Suc ?i)" using C by (simp add: less_Suc_eq) blast
    have d: "\<forall>j. Done j \<in> set ?tr' \<longrightarrow> j < Suc ?i \<and> j \<notin> fst ` set ?fl'"
    proof (intro allI impI)
      fix j assume "Done j \<in> set ?tr'"
      then have dj: "Done j \<in> set ?tr" by simp
      then have "j \<noteq> ?i" using notDone by blast
      with Dn [OF dj] show "j < Suc ?i \<and> j \<notin> fst ` set ?fl'" by simp
    qed
    have e: "\<forall>j < Suc ?i. j \<notin> fst ` set ?fl' \<longrightarrow> Done j \<in> set ?tr'
            \<and> ?res ! j = Some (if ?ff \<and> failedBefore ?res ?tr' j then skippedResult (tasks ! j) else ?real j)"
    proof (intro allI impI)
      fix j assume j: "j < Suc ?i" and nf: "j \<notin> fst ` set ?fl'"
      then have ne: "j \<noteq> ?i" by simp
      then have lt: "j < ?i" using j by simp
      have nf': "j \<notin> fst ` set ?fl" using nf by simp
      from E [OF lt nf'] stab [OF lt] show "Done j \<in> set ?tr'
            \<and> ?res ! j = Some (if ?ff \<and> failedBefore ?res ?tr' j then skippedResult (tasks ! j) else ?real j)"
        by simp
    qed
    have f: "sh_aborted ?sh' = (?ff \<and> list_ex (settledWithFailure ?res) ?tr')"
      using F by (simp add: settledWithFailure_def)
    have g: "sh_log ?sh' = log0 @ map (spawnOf env pc tasks ts)
              (filter (\<lambda>j. \<not> (?ff \<and> failedBefore ?res ?tr' j)) [0..<Suc ?i])"
    proof -
      have "filter (\<lambda>j. \<not> (?ff \<and> failedBefore ?res ?tr' j)) [0..<?i]
          = filter (\<lambda>j. \<not> (?ff \<and> failedBefore ?res ?tr j)) [0..<?i]"
        by (rule filter_cong) (simp_all add: stab)
      then show ?thesis using G fbi by simp
    qed
    show ?thesis
      by (rule parallelInvI [OF a A b1 b c d e f g]) (simp_all add: pl')
  qed
qed


lemma flight_remove:
  assumes "k < length fl" and "distinct (map fst fl)"
  shows "distinct (map fst (take k fl @ drop (Suc k) fl))"
    and "fst (fl ! k) \<notin> fst ` set (take k fl @ drop (Suc k) fl)"
    and "fst ` set fl = insert (fst (fl ! k)) (fst ` set (take k fl @ drop (Suc k) fl))"
    and "set (take k fl @ drop (Suc k) fl) \<subseteq> set fl"
proof -
  define A where "A = take k fl"
  define B where "B = drop (Suc k) fl"
  define x where "x = fl ! k"
  have eq: "fl = A @ x # B" unfolding A_def B_def x_def by (rule id_take_nth_drop [OF assms(1)])
  from assms(2) have d: "distinct (map fst (A @ x # B))" unfolding eq .
  have s: "set fl = set (A @ x # B)" unfolding eq ..
  show "distinct (map fst (take k fl @ drop (Suc k) fl))"
    unfolding A_def [symmetric] B_def [symmetric] using d by simp
  show "fst (fl ! k) \<notin> fst ` set (take k fl @ drop (Suc k) fl)"
    unfolding A_def [symmetric] B_def [symmetric] x_def [symmetric] using d by auto
  show "fst ` set fl = insert (fst (fl ! k)) (fst ` set (take k fl @ drop (Suc k) fl))"
    unfolding A_def [symmetric] B_def [symmetric] x_def [symmetric] s by auto
  show "set (take k fl @ drop (Suc k) fl) \<subseteq> set fl"
    unfolding A_def [symmetric] B_def [symmetric] s by auto
qed

lemma parallelInv_complete:
  assumes inv: "parallelInv env pc tasks ts log0 pl"
    and h1: "pc_templates pc = Some ts"
    and k: "k < length (pl_flight pl)"
  shows "parallelInv env pc tasks ts log0 (poolComplete (parallelFinish env pc) k pl)"
proof -
  let ?i = "pl_next pl" and ?res = "pl_results pl" and ?tr = "pl_trace pl" and ?fl = "pl_flight pl"
  let ?sh = "pl_shared pl" and ?ff = "pc_failFast pc"
  let ?real = "\<lambda>j. parallelTaskResult env pc (tasks ! j) j"
  let ?j = "fst (?fl ! k)"
  let ?fl' = "take k ?fl @ drop (Suc k) ?fl"
  let ?res' = "?res[?j := Some (?real ?j)]"
  let ?tr' = "?tr @ [Done ?j]"
  let ?sh' = "if r_exitCode (?real ?j) \<noteq> 0 \<and> ?ff then ?sh\<lparr> sh_aborted := True \<rparr> else ?sh"
  note D = parallelInvD [OF inv]
  have A0: "?i \<le> length tasks" by (rule D(1))
  have A: "length ?res = length tasks" by (rule D(2))
  have B1: "distinct (map fst ?fl)" by (rule D(3))
  have B2: "fst e < ?i \<and> snd e = (tasks ! fst e, fst e) \<and> Done (fst e) \<notin> set ?tr
            \<and> \<not> (?ff \<and> failedBefore ?res ?tr (fst e))" if "e \<in> set ?fl" for e
    using D(4) that by blast
  have C: "(Called j \<in> set ?tr) = (j < ?i)" for j using D(5) by blast
  have Dn: "j < ?i \<and> j \<notin> fst ` set ?fl" if "Done j \<in> set ?tr" for j using D(6) that by blast
  have E: "Done j \<in> set ?tr
            \<and> ?res ! j = Some (if ?ff \<and> failedBefore ?res ?tr j then skippedResult (tasks ! j) else ?real j)"
    if "j < ?i" "j \<notin> fst ` set ?fl" for j
    using D(7) that by blast
  have F: "sh_aborted ?sh = (?ff \<and> list_ex (settledWithFailure ?res) ?tr)" by (rule D(8))
  have G: "sh_log ?sh = log0 @ map (spawnOf env pc tasks ts)
              (filter (\<lambda>j. \<not> (?ff \<and> failedBefore ?res ?tr j)) [0..<?i])" by (rule D(9))
  note R = flight_remove [OF k B1]
  have mem: "?fl ! k \<in> set ?fl" using k by simp
  have jlt: "?j < ?i" and snd_k: "snd (?fl ! k) = (tasks ! ?j, ?j)" and notDone: "Done ?j \<notin> set ?tr"
    and nfb: "\<not> (?ff \<and> failedBefore ?res ?tr ?j)"
    using B2 [OF mem] by simp_all
  have jres: "?j < length ?res" using jlt A0 A by simp
  have pl': "poolComplete (parallelFinish env pc) k pl
      = pl\<lparr> pl_flight := ?fl', pl_results := ?res', pl_shared := ?sh', pl_trace := ?tr' \<rparr>"
    by (simp add: poolComplete_def parallelFinish_def Let_def snd_k)
  have stab: "failedBefore ?res' ?tr' m = failedBefore ?res ?tr m" if "m < ?i" for m
    using failedBefore_stable_update [of m ?tr ?j] C [of m] that notDone by simp
  have a2: "length ?res' = length tasks" using A by simp
  have b: "\<forall>e \<in> set ?fl'. fst e < ?i \<and> snd e = (tasks ! fst e, fst e) \<and> Done (fst e) \<notin> set ?tr'
            \<and> \<not> (?ff \<and> failedBefore ?res' ?tr' (fst e))"
  proof
    fix e assume e: "e \<in> set ?fl'"
    then have e0: "e \<in> set ?fl" using R(4) by blast
    have ne: "fst e \<noteq> ?j" using e R(2) by (metis imageI)
    from B2 [OF e0] have lt: "fst e < ?i" by simp
    from B2 [OF e0] stab [OF lt] ne
    show "fst e < ?i \<and> snd e = (tasks ! fst e, fst e) \<and> Done (fst e) \<notin> set ?tr'
            \<and> \<not> (?ff \<and> failedBefore ?res' ?tr' (fst e))"
      by simp
  qed
  have c: "\<forall>j. (Called j \<in> set ?tr') = (j < ?i)" using C by simp
  have d: "\<forall>j. Done j \<in> set ?tr' \<longrightarrow> j < ?i \<and> j \<notin> fst ` set ?fl'"
  proof (intro allI impI)
    fix j assume "Done j \<in> set ?tr'"
    then have "Done j \<in> set ?tr \<or> j = ?j" by auto
    then show "j < ?i \<and> j \<notin> fst ` set ?fl'"
    proof
      assume "Done j \<in> set ?tr"
      from Dn [OF this] show ?thesis unfolding R(3) by simp
    next
      assume "j = ?j" then show ?thesis using jlt R(2) by simp
    qed
  qed
  have e: "\<forall>j < ?i. j \<notin> fst ` set ?fl' \<longrightarrow> Done j \<in> set ?tr'
            \<and> ?res' ! j = Some (if ?ff \<and> failedBefore ?res' ?tr' j then skippedResult (tasks ! j) else ?real j)"
  proof (intro allI impI)
    fix j assume j: "j < ?i" and nf: "j \<notin> fst ` set ?fl'"
    show "Done j \<in> set ?tr'
            \<and> ?res' ! j = Some (if ?ff \<and> failedBefore ?res' ?tr' j then skippedResult (tasks ! j) else ?real j)"
    proof (cases "j = ?j")
      case True
      have "?res' ! ?j = Some (?real ?j)" using jres by simp
      moreover have "\<not> (?ff \<and> failedBefore ?res' ?tr' ?j)" using nfb stab [OF jlt] by simp
      ultimately show ?thesis using True by auto
    next
      case False
      then have nf0: "j \<notin> fst ` set ?fl" unfolding R(3) using nf by simp
      have "?res' ! j = ?res ! j" using False by simp
      with E [OF j nf0] stab [OF j] show ?thesis by simp
    qed
  qed
  have f: "sh_aborted ?sh' = (?ff \<and> list_ex (settledWithFailure ?res') ?tr')"
  proof -
    have "settledWithFailure ?res' (Done ?j) = (r_exitCode (?real ?j) \<noteq> 0)"
      using jres by (simp add: settledWithFailure_def nthOpt_def)
    moreover have "list_ex (settledWithFailure ?res') ?tr = list_ex (settledWithFailure ?res) ?tr"
      by (rule swf_update [OF notDone])
    ultimately show ?thesis using F by auto
  qed
  have g: "sh_log ?sh' = log0 @ map (spawnOf env pc tasks ts)
              (filter (\<lambda>j. \<not> (?ff \<and> failedBefore ?res' ?tr' j)) [0..<?i])"
  proof -
    have "filter (\<lambda>j. \<not> (?ff \<and> failedBefore ?res' ?tr' j)) [0..<?i]
        = filter (\<lambda>j. \<not> (?ff \<and> failedBefore ?res ?tr j)) [0..<?i]"
      by (rule filter_cong) (simp_all add: stab)
    then show ?thesis using G by simp
  qed
  show ?thesis
    unfolding pl' by (rule parallelInvI [OF A0 a2 R(1) b c d e f g]) simp_all
qed

text \<open>
  Claim C4. A parallel step whose tasks name known agents and whose workers can be spawned
  settles, whatever the concurrency limit (at least 1) and the order in which the tasks in
  flight complete. Every task is called once and settles once. With \<^verbatim>\<open>failFast\<close>, a task
  whose callback is called after some task has settled with a non-zero exit code is not
  started: no worker is spawned for it and its slot holds the skipped result, whose exit
  code is \<open>-1\<close>. Every other task, in particular one in flight when the failure happens,
  has its worker spawned and its slot holds the result of that worker.
\<close>

theorem failFast_skips_unstarted_tasks:
  assumes templates: "pc_templates pc = Some ts"
    and behaviors: "length (pc_behaviors pc) = length tasks"
    and known: "\<forall>t \<in> set tasks. findAgent (pc_agents pc) (st_agent t) \<noteq> None"
    and spawnable: "\<forall>i < length tasks. w_setupError (e_worker env (pc_globalTaskIndex pc + i) (st_agent (tasks ! i))
            (parallelTask env pc ts i)) = None"
    and limit: "0 < limit"
  shows "\<exists>slots sh tr.
      mapConcurrent sched (parallelStart env pc) (parallelFinish env pc) tasks limit
          \<lparr> sh_aborted = False, sh_log = log0 \<rparr> = Resolved slots sh tr
      \<and> length slots = length tasks
      \<and> (\<forall>i < length tasks. Called i \<in> set tr \<and> Done i \<in> set tr
            \<and> slots ! i = Some (if pc_failFast pc \<and> failedBefore slots tr i
                                then skippedResult (tasks ! i)
                                else parallelTaskResult env pc (tasks ! i) i))
      \<and> sh_log sh = log0 @ map (spawnOf env pc tasks ts)
                       (filter (\<lambda>i. \<not> (pc_failFast pc \<and> failedBefore slots tr i)) [0..<length tasks])
      \<and> (\<forall>t. r_exitCode (skippedResult t) = - 1)"
proof -
  let ?pl0 = "\<lparr> pl_next = 0, pl_flight = [], pl_results = replicate (length tasks) None,
          pl_shared = \<lparr> sh_aborted = False, sh_log = log0 \<rparr>, pl_trace = [] \<rparr>"
  let ?I = "parallelInv env pc tasks ts log0"
  have i0: "?I ?pl0"
    by (simp add: parallelInv_def)
  have st: "\<forall>pl pl'. ?I pl \<and> pl_next pl < length tasks \<and> length (pl_flight pl) < limit \<and>
            poolStart (parallelStart env pc) tasks pl = Inr pl' \<longrightarrow> ?I pl'"
    using parallelInv_start [OF _ templates behaviors known spawnable] by blast
  have co: "\<forall>pl k. ?I pl \<and> k < length (pl_flight pl) \<longrightarrow> ?I (poolComplete (parallelFinish env pc) k pl)"
    using parallelInv_complete [OF _ templates] by blast
  note inv = mapLoop_invariant_aux [of ?I ?pl0 tasks limit "parallelStart env pc" "parallelFinish env pc" sched 0,
      OF i0 st co]
  have skipped: "\<forall>t. r_exitCode (skippedResult t) = - 1" by (simp add: skippedResult_def)
  show ?thesis
  proof (cases "mapLoop sched (parallelStart env pc) (parallelFinish env pc) tasks limit 0 ?pl0")
    case (Finished pl')
    with inv have p: "?I pl'" and e: "pl_flight pl' = []" and n: "length tasks \<le> pl_next pl'"
      by simp_all
    note D = parallelInvD [OF p]
    have nx: "pl_next pl' = length tasks" using D(1) n by simp
    have slots: "\<forall>i < length tasks. Called i \<in> set (pl_trace pl') \<and> Done i \<in> set (pl_trace pl')
            \<and> pl_results pl' ! i = Some (if pc_failFast pc \<and> failedBefore (pl_results pl') (pl_trace pl') i
                                then skippedResult (tasks ! i)
                                else parallelTaskResult env pc (tasks ! i) i)"
      using D(5) D(7) unfolding nx e by simp
    have lg: "sh_log (pl_shared pl') = log0 @ map (spawnOf env pc tasks ts)
        (filter (\<lambda>i. \<not> (pc_failFast pc \<and> failedBefore (pl_results pl') (pl_trace pl') i)) [0..<length tasks])"
      using D(9) unfolding nx .
    have "mapConcurrent sched (parallelStart env pc) (parallelFinish env pc) tasks limit
          \<lparr> sh_aborted = False, sh_log = log0 \<rparr> = Resolved (pl_results pl') (pl_shared pl') (pl_trace pl')"
      using Finished by (simp add: mapConcurrent_def)
    with D(2) slots lg skipped show ?thesis by blast
  next
    case (Rejected e s)
    with inv obtain pl' where p: "?I pl'" and lt: "pl_next pl' < length tasks"
      and rej: "poolStart (parallelStart env pc) tasks pl' = Inl (e, s)" by auto
    have False
      using rej parallelStart_known [OF templates behaviors known spawnable lt, of "pl_shared pl'"]
      by (simp add: poolStart_def Let_def split: if_splits)
    then show ?thesis ..
  next
    case (Stuck pl')
    with inv limit show ?thesis by simp
  qed
qed

text \<open>
  The example step: three tasks, limit 2, the worker of the first task exits with code 1.
\<close>

theorem failFast_skips_unstarted_tasks_witness:
  "pc_templates exampleParallelContext = Some [''{task}'', ''{task}'', ''{task}'']
   \<and> length (pc_behaviors exampleParallelContext) = 3
   \<and> (0::nat) < 2
   \<and> (\<exists>slots sh tr.
      mapConcurrent (\<lambda>t. StartNext) (parallelStart (exampleEnvironment firstFails) exampleParallelContext)
          (parallelFinish (exampleEnvironment firstFails) exampleParallelContext)
          [exampleTask ''worker'' None, exampleTask ''worker'' None, exampleTask ''worker'' None] 2
          \<lparr> sh_aborted = False, sh_log = [] \<rparr> = Resolved slots sh tr
      \<and> length slots = 3
      \<and> (\<forall>i < 3. Called i \<in> set tr \<and> Done i \<in> set tr
            \<and> slots ! i = Some (if failedBefore slots tr i
                                then skippedResult (exampleTask ''worker'' None)
                                else parallelTaskResult (exampleEnvironment firstFails) exampleParallelContext
                                       (exampleTask ''worker'' None) i))
      \<and> (\<forall>t. r_exitCode (skippedResult t) = - 1))"
proof -
  let ?tasks = "[exampleTask ''worker'' None, exampleTask ''worker'' None, exampleTask ''worker'' None]"
  let ?ts = "[''{task}'', ''{task}'', ''{task}'']"
  let ?env = "exampleEnvironment firstFails"
  have h1: "pc_templates exampleParallelContext = Some ?ts"
    by (simp add: exampleParallelContext_def)
  have h2: "length (pc_behaviors exampleParallelContext) = length ?tasks"
    by (simp add: exampleParallelContext_def)
  have h3: "\<forall>t \<in> set ?tasks. findAgent (pc_agents exampleParallelContext) (st_agent t) \<noteq> None"
    by (simp add: exampleParallelContext_def exampleTask_def exampleAgent_def findAgent_def)
  have h4: "\<forall>i < length ?tasks. w_setupError (e_worker ?env (pc_globalTaskIndex exampleParallelContext + i)
      (st_agent (?tasks ! i)) (parallelTask ?env exampleParallelContext ?ts i)) = None"
    by (simp add: exampleEnvironment_def firstFails_def failingWorker_def succeedingWorker_def
        exampleWorker_def)
  have h5: "(0::nat) < 2" by simp
  have ff: "pc_failFast exampleParallelContext" by (simp add: exampleParallelContext_def)
  have nth: "\<And>i. i < 3 \<Longrightarrow> ?tasks ! i = exampleTask ''worker'' None"
    by (simp add: nth_Cons split: nat.splits)
  from failFast_skips_unstarted_tasks [OF h1 h2 h3 h4 h5, of "\<lambda>t. StartNext" "[]"]
  obtain slots sh tr where
    "mapConcurrent (\<lambda>t. StartNext) (parallelStart ?env exampleParallelContext)
          (parallelFinish ?env exampleParallelContext) ?tasks 2
          \<lparr> sh_aborted = False, sh_log = [] \<rparr> = Resolved slots sh tr"
    and "length slots = 3"
    and "\<forall>i < 3. Called i \<in> set tr \<and> Done i \<in> set tr
            \<and> slots ! i = Some (if failedBefore slots tr i
                                then skippedResult (?tasks ! i)
                                else parallelTaskResult ?env exampleParallelContext (?tasks ! i) i)"
    and "\<forall>t. r_exitCode (skippedResult t) = - 1"
    using ff by auto
  then show ?thesis using h1 h2 nth by auto
qed

text \<open>
  The run of the example: the first two tasks are started, the first fails, the third is
  skipped, and the second, in flight when the first failed, runs to completion.
\<close>

lemma failFast_example:
  "\<exists>r0 r1 sh.
     mapConcurrent (\<lambda>t. StartNext) (parallelStart (exampleEnvironment firstFails) exampleParallelContext)
          (parallelFinish (exampleEnvironment firstFails) exampleParallelContext)
          [exampleTask ''worker'' None, exampleTask ''worker'' None, exampleTask ''worker'' None] 2
          \<lparr> sh_aborted = False, sh_log = [] \<rparr>
       = Resolved [Some r0, Some r1, Some (skippedResult (exampleTask ''worker'' None))] sh
           [Called 0, Called 1, Done 0, Called 2, Done 2, Done 1]
     \<and> r_exitCode r0 = 1 \<and> r_exitCode r1 = 0
     \<and> sh_log sh = [Spawn 0 ''worker'' ''go'', Spawn 1 ''worker'' ''go'']"
  by (simp add: mapConcurrent_def mapLoop.simps poolStart_def poolComplete_def chosen_def
      parallelStart_def parallelFinish_def parallelTaskResult_def parallelTask_def
      exampleParallelContext_def firstFails_def exampleTask_def run_defs)

end
